theory Spec2Isabelle
  imports Main "HOL-Library.AList" "HOL-Library.Sublist"
begin

section \<open>Data model (models/user\_profile.py)\<close>

text \<open>
  The enumerations are string-valued Python enums; each gets a datatype and a function
  giving its \<^verbatim>\<open>.value\<close>.
\<close>

datatype TravelStyle = CULTURAL | ADVENTURE | RELAXATION | BUSINESS | FAMILY | SOLO | ACCESSIBLE

datatype BudgetRange = BUDGET | MID_RANGE | LUXURY | FLEXIBLE

datatype CommunicationStyle = BRIEF | DETAILED | CONVERSATIONAL | PROFESSIONAL

datatype RiskTolerance = LOW | MEDIUM | HIGH

fun TravelStyle_value :: "TravelStyle \<Rightarrow> string" where
  "TravelStyle_value CULTURAL = ''cultural''"
| "TravelStyle_value ADVENTURE = ''adventure''"
| "TravelStyle_value RELAXATION = ''relaxation''"
| "TravelStyle_value BUSINESS = ''business''"
| "TravelStyle_value FAMILY = ''family''"
| "TravelStyle_value SOLO = ''solo''"
| "TravelStyle_value ACCESSIBLE = ''accessible''"

fun BudgetRange_value :: "BudgetRange \<Rightarrow> string" where
  "BudgetRange_value BUDGET = ''budget''"
| "BudgetRange_value MID_RANGE = ''mid-range''"
| "BudgetRange_value LUXURY = ''luxury''"
| "BudgetRange_value FLEXIBLE = ''flexible''"

fun CommunicationStyle_value :: "CommunicationStyle \<Rightarrow> string" where
  "CommunicationStyle_value BRIEF = ''brief''"
| "CommunicationStyle_value DETAILED = ''detailed''"
| "CommunicationStyle_value CONVERSATIONAL = ''conversational''"
| "CommunicationStyle_value PROFESSIONAL = ''professional''"

fun RiskTolerance_value :: "RiskTolerance \<Rightarrow> string" where
  "RiskTolerance_value LOW = ''low''"
| "RiskTolerance_value MEDIUM = ''medium''"
| "RiskTolerance_value HIGH = ''high''"

text \<open>
  A \<^verbatim>\<open>datetime\<close> is a point on an integer time line; the clock reads
  (\<^verbatim>\<open>datetime.utcnow()\<close>) and the fresh identifiers (\<^verbatim>\<open>uuid.uuid4()\<close>) are inputs of the
  operations that perform them. Values typed \<^verbatim>\<open>Any\<close> are JSON-like trees.
\<close>

type_synonym datetime = int

datatype any = ANone | ABool bool | AInt int | AStr string
  | AList "any list" | ADict "(string \<times> any) list"

record BasicInfo =
  name :: string
  email :: string
  age :: "int option"
  nationality :: string
  home_location :: string
  phone :: "string option"
  emergency_contact :: "(string \<times> string) list option"

record TravelInterests =
  preferred_destinations :: "string list"
  travel_style :: "TravelStyle list"
  budget_range :: BudgetRange
  group_size_preference :: string
  accommodation_preferences :: "string list"
  activity_interests :: "string list"
  transportation_preferences :: "string list"

record AccessibilityProfile =
  mobility_needs :: "string list"
  sensory_needs :: "string list"
  cognitive_needs :: "string list"
  assistance_preferences :: "(string \<times> string) list"
  mobility_aids :: "string list"
  medical_conditions :: "string list"
  dietary_restrictions :: "string list"
  medication_requirements :: "string list"
  accessibility_priorities :: "string list"
  barrier_concerns :: "string list"
  service_animal :: "(string \<times> string) list option"
  communication_needs :: "string list"

record UserPreferences =
  communication_style :: CommunicationStyle
  risk_tolerance :: RiskTolerance
  planning_horizon :: string
  notification_preferences :: "(string \<times> bool) list"
  privacy_settings :: "(string \<times> bool) list"
  language_preferences :: "string list"
  currency_preference :: string
  timezone :: string

record UserProfile =
  user_id :: string
  basic_info :: BasicInfo
  travel_interests :: TravelInterests
  accessibility_profile :: AccessibilityProfile
  preferences :: UserPreferences
  created_at :: datetime
  updated_at :: datetime
  last_active :: "datetime option"
  profile_complete :: bool
  onboarding_completed :: bool
  travel_history :: "(string \<times> any) list list"
  learned_preferences :: "(string \<times> any) list"

text \<open>The request models repeat the profile's field names; theirs carry a prefix here.\<close>

record CreateUserProfileRequest =
  c_basic_info :: BasicInfo
  c_travel_interests :: "TravelInterests option"
  c_accessibility_profile :: "AccessibilityProfile option"
  c_preferences :: "UserPreferences option"

record UpdateUserProfileRequest =
  u_basic_info :: "BasicInfo option"
  u_travel_interests :: "TravelInterests option"
  u_accessibility_profile :: "AccessibilityProfile option"
  u_preferences :: "UserPreferences option"

record UserProfileSummary =
  s_user_id :: string
  s_name :: string
  s_email :: string
  s_created_at :: datetime
  s_last_active :: "datetime option"
  s_profile_complete :: bool
  accessibility_needs_count :: nat
  travel_interests_count :: nat

text \<open>The defaults of the pydantic models (\<^verbatim>\<open>TravelInterests()\<close> and so on).\<close>

definition TravelInterests_default :: TravelInterests where
  "TravelInterests_default =
     \<lparr>preferred_destinations = [], travel_style = [], budget_range = MID_RANGE,
      group_size_preference = ''flexible'', accommodation_preferences = [],
      activity_interests = [], transportation_preferences = []\<rparr>"

definition AccessibilityProfile_default :: AccessibilityProfile where
  "AccessibilityProfile_default =
     \<lparr>mobility_needs = [], sensory_needs = [], cognitive_needs = [],
      assistance_preferences = [], mobility_aids = [], medical_conditions = [],
      dietary_restrictions = [], medication_requirements = [],
      accessibility_priorities = [], barrier_concerns = [], service_animal = None,
      communication_needs = []\<rparr>"

definition UserPreferences_default :: UserPreferences where
  "UserPreferences_default =
     \<lparr>communication_style = DETAILED, risk_tolerance = MEDIUM,
      planning_horizon = ''1_month'', notification_preferences = [],
      privacy_settings = [], language_preferences = [], currency_preference = ''USD'',
      timezone = ''UTC''\<rparr>"


section \<open>The profile service (services/user\_profile\_service.py)\<close>

subsection \<open>Completeness and summaries\<close>

text \<open>
  Python truthiness: a string, list or dict is true when non-empty; a model instance is
  always true, so \<^verbatim>\<open>request.travel_interests and (...)\<close> is the parenthesis when the
  sub-object is present and false when it is \<^verbatim>\<open>None\<close>.
\<close>

definition is_profile_complete :: "CreateUserProfileRequest \<Rightarrow> bool" where
  "is_profile_complete request =
     (let b = c_basic_info request;
          basic_complete =
            (name b \<noteq> [] \<and> email b \<noteq> [] \<and> nationality b \<noteq> [] \<and> home_location b \<noteq> []);
          interests_complete =
            (case c_travel_interests request of
               None \<Rightarrow> False
             | Some t \<Rightarrow> preferred_destinations t \<noteq> [] \<or> travel_style t \<noteq> []
                         \<or> activity_interests t \<noteq> []);
          accessibility_complete =
            (case c_accessibility_profile request of
               None \<Rightarrow> False
             | Some a \<Rightarrow> mobility_needs a \<noteq> [] \<or> sensory_needs a \<noteq> []
                         \<or> assistance_preferences a \<noteq> [])
      in basic_complete \<and> (interests_complete \<or> accessibility_complete))"

definition is_profile_complete_from_profile :: "UserProfile \<Rightarrow> bool" where
  "is_profile_complete_from_profile profile =
     (let basic_complete =
            (name (basic_info profile) \<noteq> [] \<and> email (basic_info profile) \<noteq> []
             \<and> nationality (basic_info profile) \<noteq> []
             \<and> home_location (basic_info profile) \<noteq> []);
          interests_complete =
            (preferred_destinations (travel_interests profile) \<noteq> []
             \<or> travel_style (travel_interests profile) \<noteq> []
             \<or> activity_interests (travel_interests profile) \<noteq> []);
          accessibility_complete =
            (mobility_needs (accessibility_profile profile) \<noteq> []
             \<or> sensory_needs (accessibility_profile profile) \<noteq> []
             \<or> assistance_preferences (accessibility_profile profile) \<noteq> [])
      in basic_complete \<and> (interests_complete \<or> accessibility_complete))"

definition create_profile_summary :: "UserProfile \<Rightarrow> UserProfileSummary" where
  "create_profile_summary profile =
     \<lparr>s_user_id = user_id profile,
      s_name = name (basic_info profile),
      s_email = email (basic_info profile),
      s_created_at = created_at profile,
      s_last_active = last_active profile,
      s_profile_complete = profile_complete profile,
      accessibility_needs_count =
        length (mobility_needs (accessibility_profile profile)
                @ sensory_needs (accessibility_profile profile)
                @ cognitive_needs (accessibility_profile profile)),
      travel_interests_count =
        length (preferred_destinations (travel_interests profile)
                @ activity_interests (travel_interests profile)
                @ accommodation_preferences (travel_interests profile))\<rparr>"


subsection \<open>The two stores\<close>

text \<open>
  \<^verbatim>\<open>_memory_store\<close> is a Python dict from user id to the dumped profile. A dict keeps
  insertion order, which \<^verbatim>\<open>list(self._memory_store.values())\<close> exposes, so it is an
  association list: assignment (\<^const>\<open>AList.update\<close>) replaces in place or appends,
  \<^verbatim>\<open>del\<close> is \<^const>\<open>AList.delete\<close>, lookup is \<^const>\<open>map_of\<close>. Dumping a profile
  and validating the dump again gives the profile back, so the values are profiles.

  The document database is an external service. It is modelled by the documents of the
  collection \<^verbatim>\<open>user_profiles\<close> together with a schedule of outages: every call of the
  client consumes the head of \<^term>\<open>faults\<close> and raises when it is true (an exhausted
  schedule means no further outage). The operations never look at the schedule
  otherwise, so quantifying over it covers every pattern of backend failures.
\<close>

datatype error = BackendError | NotFound | ValueError

record firestore =
  docs :: "(string \<times> UserProfile) list"
  faults :: "bool list"

record service =
  db :: "firestore option"
  memory_store :: "(string \<times> UserProfile) list"

text \<open>The dict built by \<^verbatim>\<open>update_user_profile\<close> and \<^verbatim>\<open>update_last_active\<close>: a key is
  present when the field is \<^term>\<open>Some\<close>.\<close>

record update_data =
  d_basic_info :: "BasicInfo option"
  d_travel_interests :: "TravelInterests option"
  d_accessibility_profile :: "AccessibilityProfile option"
  d_preferences :: "UserPreferences option"
  d_updated_at :: "datetime option"
  d_profile_complete :: "bool option"
  d_last_active :: "datetime option"

definition empty_update :: update_data where
  "empty_update =
     \<lparr>d_basic_info = None, d_travel_interests = None, d_accessibility_profile = None,
      d_preferences = None, d_updated_at = None, d_profile_complete = None,
      d_last_active = None\<rparr>"

text \<open>\<^verbatim>\<open>dict.update\<close> (and the field-wise update of a document): the keys present
  overwrite, every other key stays.\<close>

definition apply_update :: "update_data \<Rightarrow> UserProfile \<Rightarrow> UserProfile" where
  "apply_update d p =
     p\<lparr>basic_info := (case d_basic_info d of None \<Rightarrow> basic_info p | Some v \<Rightarrow> v),
       travel_interests :=
         (case d_travel_interests d of None \<Rightarrow> travel_interests p | Some v \<Rightarrow> v),
       accessibility_profile :=
         (case d_accessibility_profile d of None \<Rightarrow> accessibility_profile p | Some v \<Rightarrow> v),
       preferences := (case d_preferences d of None \<Rightarrow> preferences p | Some v \<Rightarrow> v),
       updated_at := (case d_updated_at d of None \<Rightarrow> updated_at p | Some v \<Rightarrow> v),
       profile_complete :=
         (case d_profile_complete d of None \<Rightarrow> profile_complete p | Some v \<Rightarrow> v),
       last_active := (case d_last_active d of None \<Rightarrow> last_active p | Some v \<Rightarrow> Some v)\<rparr>"

text \<open>Python's \<^verbatim>\<open>xs[a:b]\<close> for arbitrary integers (negative indices count from the end).\<close>

definition slice_index :: "int \<Rightarrow> nat \<Rightarrow> nat" where
  "slice_index i n = (if i < 0 then nat (max 0 (i + int n)) else min (nat i) n)"

definition py_slice :: "int \<Rightarrow> int \<Rightarrow> 'a list \<Rightarrow> 'a list" where
  "py_slice a b xs =
     (let lo = slice_index a (length xs); hi = slice_index b (length xs)
      in take (hi - lo) (drop lo xs))"

subsubsection \<open>The client calls of the document database\<close>

definition raises :: "firestore \<Rightarrow> bool" where
  "raises fs = (case faults fs of [] \<Rightarrow> False | f # rest \<Rightarrow> f)"

definition advance :: "firestore \<Rightarrow> firestore" where
  "advance fs = fs\<lparr>faults := tl (faults fs)\<rparr>"

text \<open>\<^verbatim>\<open>doc_ref.set(data)\<close>\<close>
definition doc_set :: "string \<Rightarrow> UserProfile \<Rightarrow> firestore \<Rightarrow> (error + unit) \<times> firestore" where
  "doc_set uid data fs =
     (if raises fs then (Inl BackendError, advance fs)
      else (Inr (), (advance fs)\<lparr>docs := AList.update uid data (docs fs)\<rparr>))"

text \<open>\<^verbatim>\<open>doc_ref.get()\<close>: the snapshot, \<^term>\<open>None\<close> when \<^verbatim>\<open>doc.exists\<close> is false.\<close>
definition doc_get :: "string \<Rightarrow> firestore \<Rightarrow> (error + UserProfile option) \<times> firestore" where
  "doc_get uid fs =
     (if raises fs then (Inl BackendError, advance fs)
      else (Inr (map_of (docs fs) uid), advance fs))"

text \<open>\<^verbatim>\<open>doc_ref.update(update_data)\<close>: raises \<^verbatim>\<open>NotFound\<close> when the document is missing.\<close>
definition doc_update :: "string \<Rightarrow> update_data \<Rightarrow> firestore \<Rightarrow> (error + unit) \<times> firestore" where
  "doc_update uid d fs =
     (if raises fs then (Inl BackendError, advance fs)
      else (case map_of (docs fs) uid of
              None \<Rightarrow> (Inl NotFound, advance fs)
            | Some _ \<Rightarrow>
                (Inr (), (advance fs)\<lparr>docs := AList.map_entry uid (apply_update d) (docs fs)\<rparr>)))"

text \<open>\<^verbatim>\<open>doc_ref.delete()\<close>\<close>
definition doc_delete :: "string \<Rightarrow> firestore \<Rightarrow> (error + unit) \<times> firestore" where
  "doc_delete uid fs =
     (if raises fs then (Inl BackendError, advance fs)
      else (Inr (), (advance fs)\<lparr>docs := AList.delete uid (docs fs)\<rparr>))"

text \<open>\<^verbatim>\<open>collection.order_by("created_at").offset(offset).limit(limit).stream()\<close>: the
  documents in ascending \<^verbatim>\<open>created_at\<close>; a negative offset or limit is rejected.\<close>
definition doc_query :: "int \<Rightarrow> int \<Rightarrow> firestore \<Rightarrow> (error + UserProfile list) \<times> firestore" where
  "doc_query offset limit fs =
     (if raises fs \<or> offset < 0 \<or> limit < 0 then (Inl BackendError, advance fs)
      else (Inr (take (nat limit) (drop (nat offset)
                   (sort_key created_at (map snd (docs fs))))), advance fs))"

subsection \<open>Construction\<close>

text \<open>
  \<^verbatim>\<open>__init__\<close>: the in-memory dict starts empty; when the client constructor raises
  (\<^term>\<open>client\<close> is \<^term>\<open>None\<close>), \<^verbatim>\<open>self.db\<close> becomes \<^verbatim>\<open>None\<close>.
\<close>

definition init_service :: "firestore option \<Rightarrow> service" where
  "init_service client =
     (case client of
        Some fs \<Rightarrow> \<lparr>db = Some fs, memory_store = []\<rparr>
      | None \<Rightarrow> \<lparr>db = None, memory_store = []\<rparr>)"

definition use_memory_store :: "service \<Rightarrow> bool" where
  "use_memory_store svc = (db svc = None)"

subsection \<open>create\_user\_profile\<close>

definition new_profile :: "string \<Rightarrow> datetime \<Rightarrow> CreateUserProfileRequest \<Rightarrow> UserProfile" where
  "new_profile uid now request =
     \<lparr>user_id = uid,
      basic_info = c_basic_info request,
      travel_interests =
        (case c_travel_interests request of None \<Rightarrow> TravelInterests_default | Some t \<Rightarrow> t),
      accessibility_profile =
        (case c_accessibility_profile request of
           None \<Rightarrow> AccessibilityProfile_default | Some a \<Rightarrow> a),
      preferences =
        (case c_preferences request of None \<Rightarrow> UserPreferences_default | Some u \<Rightarrow> u),
      created_at = now,
      updated_at = now,
      last_active = None,
      profile_complete = is_profile_complete request,
      onboarding_completed = False,
      travel_history = [],
      learned_preferences = []\<rparr>"

text \<open>The body of the outer \<^verbatim>\<open>try\<close>; the inner \<^verbatim>\<open>try\<close> around the write is the
  \<^term>\<open>Inl\<close> branch, which falls back to the dict and drops the client.\<close>

definition create_body ::
  "string \<Rightarrow> datetime \<Rightarrow> CreateUserProfileRequest \<Rightarrow> service \<Rightarrow> (error + UserProfile) \<times> service" where
  "create_body uid now request svc =
     (let profile = new_profile uid now request in
      case db svc of
        None \<Rightarrow>
          (Inr profile, svc\<lparr>memory_store := AList.update uid profile (memory_store svc)\<rparr>)
      | Some fs \<Rightarrow>
          (case doc_set uid profile fs of
             (Inl firestore_error, fs') \<Rightarrow>
               (Inr profile,
                svc\<lparr>db := None,
                    memory_store := AList.update uid profile (memory_store svc)\<rparr>)
           | (Inr _, fs') \<Rightarrow> (Inr profile, svc\<lparr>db := Some fs'\<rparr>)))"

text \<open>The outer handler turns whatever escapes the body into \<^verbatim>\<open>ValueError\<close>.\<close>

definition create_user_profile ::
  "string \<Rightarrow> datetime \<Rightarrow> CreateUserProfileRequest \<Rightarrow> service \<Rightarrow> (error + UserProfile) \<times> service" where
  "create_user_profile uid now request svc =
     (case create_body uid now request svc of
        (Inl e, svc') \<Rightarrow> (Inl ValueError, svc')
      | (Inr profile, svc') \<Rightarrow> (Inr profile, svc'))"

subsection \<open>get\_user\_profile\<close>

definition get_user_profile :: "string \<Rightarrow> service \<Rightarrow> UserProfile option \<times> service" where
  "get_user_profile uid svc =
     (case db svc of
        None \<Rightarrow> (map_of (memory_store svc) uid, svc)
      | Some fs \<Rightarrow>
          (case doc_get uid fs of
             (Inl e, fs') \<Rightarrow> (None, svc\<lparr>db := Some fs'\<rparr>)
           | (Inr doc, fs') \<Rightarrow> (doc, svc\<lparr>db := Some fs'\<rparr>)))"

subsection \<open>update\_user\_profile\<close>

definition build_update_data ::
  "datetime \<Rightarrow> UpdateUserProfileRequest \<Rightarrow> UserProfile \<Rightarrow> update_data" where
  "build_update_data now request existing_profile =
     (let d = empty_update
                \<lparr>d_basic_info := u_basic_info request,
                 d_travel_interests := u_travel_interests request,
                 d_accessibility_profile := u_accessibility_profile request,
                 d_preferences := u_preferences request,
                 d_updated_at := Some now\<rparr>
      in if u_basic_info request \<noteq> None \<or> u_travel_interests request \<noteq> None
            \<or> u_accessibility_profile request \<noteq> None
         then d\<lparr>d_profile_complete :=
                  Some (is_profile_complete_from_profile (apply_update d existing_profile))\<rparr>
         else d)"

definition update_user_profile ::
  "string \<Rightarrow> datetime \<Rightarrow> UpdateUserProfileRequest \<Rightarrow> service \<Rightarrow> UserProfile option \<times> service" where
  "update_user_profile uid now request svc =
     (case get_user_profile uid svc of
        (None, svc1) \<Rightarrow> (None, svc1)
      | (Some existing_profile, svc1) \<Rightarrow>
          (let d = build_update_data now request existing_profile in
           case db svc1 of
             None \<Rightarrow>
               (if map_of (memory_store svc1) uid \<noteq> None
                then (let store = AList.map_entry uid (apply_update d) (memory_store svc1)
                      in (map_of store uid, svc1\<lparr>memory_store := store\<rparr>))
                else (None, svc1))
           | Some fs \<Rightarrow>
               (case doc_update uid d fs of
                  (Inl e, fs') \<Rightarrow> (None, svc1\<lparr>db := Some fs'\<rparr>)
                | (Inr _, fs') \<Rightarrow> get_user_profile uid (svc1\<lparr>db := Some fs'\<rparr>))))"

subsection \<open>delete\_user\_profile\<close>

definition delete_user_profile :: "string \<Rightarrow> service \<Rightarrow> bool \<times> service" where
  "delete_user_profile uid svc =
     (case db svc of
        None \<Rightarrow>
          (if map_of (memory_store svc) uid \<noteq> None
           then (True, svc\<lparr>memory_store := AList.delete uid (memory_store svc)\<rparr>)
           else (False, svc))
      | Some fs \<Rightarrow>
          (case doc_get uid fs of
             (Inl e, fs') \<Rightarrow> (False, svc\<lparr>db := Some fs'\<rparr>)
           | (Inr None, fs') \<Rightarrow> (False, svc\<lparr>db := Some fs'\<rparr>)
           | (Inr (Some doc), fs') \<Rightarrow>
               (case doc_delete uid fs' of
                  (Inl e, fs'') \<Rightarrow> (False, svc\<lparr>db := Some fs''\<rparr>)
                | (Inr _, fs'') \<Rightarrow> (True, svc\<lparr>db := Some fs''\<rparr>))))"

subsection \<open>list\_user\_profiles\<close>

definition list_user_profiles :: "int \<Rightarrow> int \<Rightarrow> service \<Rightarrow> UserProfileSummary list \<times> service" where
  "list_user_profiles limit offset svc =
     (case db svc of
        None \<Rightarrow>
          (let all_profiles = map snd (memory_store svc);
               paginated_profiles = py_slice offset (offset + limit) all_profiles
           in (map create_profile_summary paginated_profiles, svc))
      | Some fs \<Rightarrow>
          (case doc_query offset limit fs of
             (Inl e, fs') \<Rightarrow> ([], svc\<lparr>db := Some fs'\<rparr>)
           | (Inr ds, fs') \<Rightarrow> (map create_profile_summary ds, svc\<lparr>db := Some fs'\<rparr>)))"

subsection \<open>update\_last\_active\<close>

definition update_last_active :: "string \<Rightarrow> datetime \<Rightarrow> service \<Rightarrow> bool \<times> service" where
  "update_last_active uid now svc =
     (let d = empty_update\<lparr>d_last_active := Some now\<rparr> in
      case db svc of
        None \<Rightarrow>
          (if map_of (memory_store svc) uid \<noteq> None
           then (True, svc\<lparr>memory_store := AList.map_entry uid (apply_update d) (memory_store svc)\<rparr>)
           else (False, svc))
      | Some fs \<Rightarrow>
          (case doc_update uid d fs of
             (Inl e, fs') \<Rightarrow> (False, svc\<lparr>db := Some fs'\<rparr>)
           | (Inr _, fs') \<Rightarrow> (True, svc\<lparr>db := Some fs'\<rparr>)))"


section \<open>The context service (services/context\_service.py)\<close>

subsection \<open>String formatting\<close>

text \<open>\<^verbatim>\<open>', '.join(xs)\<close>\<close>
fun join :: "string \<Rightarrow> string list \<Rightarrow> string" where
  "join sep [] = []"
| "join sep [x] = x"
| "join sep (x # y # ys) = x @ sep @ join sep (y # ys)"

text \<open>\<^verbatim>\<open>str\<close> of an integer, in decimal.\<close>
fun str_of_nat :: "nat \<Rightarrow> string" where
  "str_of_nat n =
     (if n < 10 then [char_of (48 + n)]
      else str_of_nat (n div 10) @ [char_of (48 + n mod 10)])"

declare str_of_nat.simps [simp del]

definition str_of_int :: "int \<Rightarrow> string" where
  "str_of_int i = (if i < 0 then CHR ''-'' # str_of_nat (nat (- i)) else str_of_nat (nat i))"

text \<open>\<^verbatim>\<open>', '.join(xs) if xs else alt\<close>\<close>
definition join_or :: "string list \<Rightarrow> string \<Rightarrow> string" where
  "join_or xs alt = (if xs \<noteq> [] then join '', '' xs else alt)"

subsection \<open>The personalized context\<close>

text \<open>The dicts built by the context service have fixed keys; each is a record, the keys
  prefixed where a profile field has the same name.\<close>

record UserInfo =
  ui_name :: string
  ui_age :: "int option"
  ui_nationality :: string
  ui_home_location :: string

record AccessibilitySummary =
  has_mobility_needs :: bool
  has_sensory_needs :: bool
  has_cognitive_needs :: bool
  as_mobility_needs :: "string list"
  as_sensory_needs :: "string list"
  as_cognitive_needs :: "string list"
  as_assistance_preferences :: "(string \<times> string) list"
  as_mobility_aids :: "string list"
  as_accessibility_priorities :: "string list"
  as_barrier_concerns :: "string list"
  as_dietary_restrictions :: "string list"
  as_service_animal :: "(string \<times> string) list option"
  as_communication_needs :: "string list"

record TravelPreferencesSummary =
  tp_preferred_destinations :: "string list"
  tp_travel_styles :: "TravelStyle list"
  tp_budget_range :: BudgetRange
  tp_group_size_preference :: string
  tp_accommodation_preferences :: "string list"
  tp_activity_interests :: "string list"
  tp_transportation_preferences :: "string list"

record PersonalizedContext =
  user_info :: UserInfo
  accessibility_summary :: AccessibilitySummary
  travel_preferences :: TravelPreferencesSummary
  pc_communication_style :: CommunicationStyle
  personalized_instructions :: "(string \<times> string) list"

definition create_accessibility_summary :: "UserProfile \<Rightarrow> AccessibilitySummary" where
  "create_accessibility_summary profile =
     (let accessibility = accessibility_profile profile in
      \<lparr>has_mobility_needs = (mobility_needs accessibility \<noteq> []),
       has_sensory_needs = (sensory_needs accessibility \<noteq> []),
       has_cognitive_needs = (cognitive_needs accessibility \<noteq> []),
       as_mobility_needs = mobility_needs accessibility,
       as_sensory_needs = sensory_needs accessibility,
       as_cognitive_needs = cognitive_needs accessibility,
       as_assistance_preferences = assistance_preferences accessibility,
       as_mobility_aids = mobility_aids accessibility,
       as_accessibility_priorities = accessibility_priorities accessibility,
       as_barrier_concerns = barrier_concerns accessibility,
       as_dietary_restrictions = dietary_restrictions accessibility,
       as_service_animal = service_animal accessibility,
       as_communication_needs = communication_needs accessibility\<rparr>)"

definition create_travel_preferences_summary :: "UserProfile \<Rightarrow> TravelPreferencesSummary" where
  "create_travel_preferences_summary profile =
     (let interests = travel_interests profile in
      \<lparr>tp_preferred_destinations = preferred_destinations interests,
       tp_travel_styles = travel_style interests,
       tp_budget_range = budget_range interests,
       tp_group_size_preference = group_size_preference interests,
       tp_accommodation_preferences = accommodation_preferences interests,
       tp_activity_interests = activity_interests interests,
       tp_transportation_preferences = transportation_preferences interests\<rparr>)"

text \<open>
  The three blocks of \<^verbatim>\<open>_generate_personalized_instructions\<close>. The f-string prints the
  assistance-preference dict with Python's built-in \<^verbatim>\<open>str\<close>; that rendering is the
  parameter \<^term>\<open>str_of_dict\<close>.
\<close>

definition base_context :: "UserProfile \<Rightarrow> string" where
  "base_context profile =
     (let user_info = basic_info profile; preferences = preferences profile in
      ''\<newline>You are helping '' @ name user_info @ '', a ''
      @ (case age user_info of
           None \<Rightarrow> ''adult''
         | Some a \<Rightarrow> if a = 0 then ''adult'' else str_of_int a)
      @ '' traveler from '' @ home_location user_info @ '', '' @ nationality user_info
      @ ''.\<newline>\<newline>COMMUNICATION STYLE: ''
      @ CommunicationStyle_value (communication_style preferences)
      @ '' - Adapt your responses accordingly.\<newline>RISK TOLERANCE: ''
      @ RiskTolerance_value (risk_tolerance preferences)
      @ '' - Consider this in recommendations.\<newline>'')"

definition accessibility_context ::
  "((string \<times> string) list \<Rightarrow> string) \<Rightarrow> UserProfile \<Rightarrow> string" where
  "accessibility_context str_of_dict profile =
     (let accessibility = accessibility_profile profile in
      if mobility_needs accessibility \<noteq> [] \<or> sensory_needs accessibility \<noteq> []
         \<or> cognitive_needs accessibility \<noteq> []
      then ''\<newline>ACCESSIBILITY NEEDS:\<newline>- Mobility: ''
           @ join_or (mobility_needs accessibility) ''None specified''
           @ ''\<newline>- Sensory: ''
           @ join_or (sensory_needs accessibility) ''None specified''
           @ ''\<newline>- Cognitive: ''
           @ join_or (cognitive_needs accessibility) ''None specified''
           @ ''\<newline>- Mobility Aids: ''
           @ join_or (mobility_aids accessibility) ''None''
           @ ''\<newline>- Priority Concerns: ''
           @ join_or (barrier_concerns accessibility) ''None specified''
           @ ''\<newline>\<newline>ASSISTANCE PREFERENCES: ''
           @ str_of_dict (assistance_preferences accessibility)
           @ ''\<newline>''
      else [])"

definition travel_context :: "UserProfile \<Rightarrow> string" where
  "travel_context profile =
     (let interests = travel_interests profile in
      ''\<newline>TRAVEL PREFERENCES:\<newline>- Destinations: ''
      @ join_or (preferred_destinations interests) ''Open to suggestions''
      @ ''\<newline>- Travel Style: ''
      @ join_or (map TravelStyle_value (travel_style interests)) ''Flexible''
      @ ''\<newline>- Budget: '' @ BudgetRange_value (budget_range interests)
      @ ''\<newline>- Group Size: '' @ group_size_preference interests
      @ ''\<newline>- Activities: ''
      @ join_or (activity_interests interests) ''Open to suggestions''
      @ ''\<newline>'')"

definition generate_personalized_instructions ::
  "((string \<times> string) list \<Rightarrow> string) \<Rightarrow> UserProfile \<Rightarrow> (string \<times> string) list" where
  "generate_personalized_instructions str_of_dict profile =
     (let full_context =
            base_context profile @ accessibility_context str_of_dict profile
            @ travel_context profile
      in
      [(''root_agent'', full_context @
''\<newline>Route requests to the most appropriate specialized agent based on the user's accessibility needs and travel preferences.\<newline>Always prioritize accessibility considerations in your routing decisions.\<newline>''),
       (''inspiration_agent'', full_context @
''\<newline>Focus on destinations and experiences that match both the user's interests and accessibility needs.\<newline>Highlight accessibility features and disabled traveler reviews when available.\<newline>''),
       (''planning_agent'', full_context @
''\<newline>Prioritize accessible flights, hotels, and transportation options.\<newline>Always consider the user's mobility aids and assistance needs when making recommendations.\<newline>Include accessibility features and costs in all suggestions.\<newline>''),
       (''booking_agent'', full_context @
''\<newline>Automatically include all necessary accessibility accommodations in bookings.\<newline>Communicate the user's specific needs to service providers.\<newline>Ensure all accessibility services are confirmed and documented.\<newline>''),
       (''accessibility_research_agent'', full_context @
''\<newline>Focus your research on the user's specific accessibility needs and concerns.\<newline>Prioritize information about barriers they've identified as concerning.\<newline>Look for reviews from travelers with similar accessibility profiles.\<newline>''),
       (''mobility_preparation_agent'', full_context @
''\<newline>Focus on the user's specific mobility aids and medical requirements.\<newline>Provide detailed guidance for their particular equipment and documentation needs.\<newline>Consider their travel style and destinations when making preparation recommendations.\<newline>''),
       (''transit_support_agent'', full_context @
''\<newline>Arrange assistance services that match the user's specific preferences and needs.\<newline>Focus on their preferred assistance types and communication methods.\<newline>Ensure all arrangements accommodate their mobility aids and requirements.\<newline>''),
       (''barrier_navigation_agent'', full_context @
''\<newline>Prioritize solutions for the barriers the user has identified as most concerning.\<newline>Provide alternatives that match their accessibility needs and travel preferences.\<newline>Consider their risk tolerance when suggesting workarounds.\<newline>'')])"

definition create_personalized_context ::
  "((string \<times> string) list \<Rightarrow> string) \<Rightarrow> UserProfile \<Rightarrow> PersonalizedContext" where
  "create_personalized_context str_of_dict profile =
     \<lparr>user_info =
        \<lparr>ui_name = name (basic_info profile),
         ui_age = age (basic_info profile),
         ui_nationality = nationality (basic_info profile),
         ui_home_location = home_location (basic_info profile)\<rparr>,
      accessibility_summary = create_accessibility_summary profile,
      travel_preferences = create_travel_preferences_summary profile,
      pc_communication_style = communication_style (preferences profile),
      personalized_instructions = generate_personalized_instructions str_of_dict profile\<rparr>"

subsection \<open>Sessions\<close>

text \<open>
  The session's state is a dict from strings to arbitrary values. The values the context
  service writes are tagged; \<^term>\<open>VTimestamp\<close> stands for the ISO string of a clock
  read, and \<^term>\<open>VAny\<close> for whatever else a session may hold. \<^term>\<open>truthy\<close> is
  Python's truth value.
\<close>

datatype state_value =
    VBool bool
  | VStr string
  | VTimestamp datetime
  | VProfile UserProfile
  | VContext PersonalizedContext
  | VAny any

fun truthy :: "state_value \<Rightarrow> bool" where
  "truthy (VBool b) = b"
| "truthy (VStr s) = (s \<noteq> [])"
| "truthy (VTimestamp t) = True"
| "truthy (VProfile p) = True"
| "truthy (VContext c) = True"
| "truthy (VAny ANone) = False"
| "truthy (VAny (ABool b)) = b"
| "truthy (VAny (AInt i)) = (i \<noteq> 0)"
| "truthy (VAny (AStr s)) = (s \<noteq> [])"
| "truthy (VAny (AList xs)) = (xs \<noteq> [])"
| "truthy (VAny (ADict kvs)) = (kvs \<noteq> [])"

record Session =
  state :: "string \<rightharpoonup> state_value"

record UserContext =
  uc_user_profile :: "state_value option"
  uc_user_id :: "state_value option"
  uc_personalized_context :: "state_value option"
  uc_context_timestamp :: "state_value option"

subsection \<open>inject\_user\_context and get\_user\_context\_from\_session\<close>

text \<open>
  The two clock reads are \<^term>\<open>now_active\<close> (inside \<^verbatim>\<open>update_last_active\<close>) and
  \<^term>\<open>now_ctx\<close> (the context timestamp). The result of \<^verbatim>\<open>update_last_active\<close> is
  discarded, as in the source. Both service calls handle their own exceptions and nothing
  else in the body can raise on a validated profile, so the handler of the method has
  no branch here.
\<close>

definition inject_user_context ::
  "((string \<times> string) list \<Rightarrow> string) \<Rightarrow> Session \<Rightarrow> string \<Rightarrow> datetime \<Rightarrow> datetime \<Rightarrow> service
   \<Rightarrow> bool \<times> Session \<times> service" where
  "inject_user_context str_of_dict session uid now_active now_ctx svc =
     (case get_user_profile uid svc of
        (None, svc1) \<Rightarrow> (False, session, svc1)
      | (Some user_profile, svc1) \<Rightarrow>
          (let svc2 = snd (update_last_active uid now_active svc1);
               personalized_context = create_personalized_context str_of_dict user_profile
           in (True,
               session\<lparr>state := (state session)
                  (''user_profile'' \<mapsto> VProfile user_profile,
                   ''user_id'' \<mapsto> VStr uid,
                   ''context_injected'' \<mapsto> VBool True,
                   ''context_timestamp'' \<mapsto> VTimestamp now_ctx,
                   ''personalized_context'' \<mapsto> VContext personalized_context)\<rparr>,
               svc2)))"

text \<open>Two calls in succession on the same session, the second on the state the first
  left; both results.\<close>

definition inject_twice ::
  "((string \<times> string) list \<Rightarrow> string) \<Rightarrow> Session \<Rightarrow> string
   \<Rightarrow> datetime \<Rightarrow> datetime \<Rightarrow> datetime \<Rightarrow> datetime \<Rightarrow> service
   \<Rightarrow> (bool \<times> Session \<times> service) \<times> (bool \<times> Session \<times> service)" where
  "inject_twice str_of_dict session uid active1 ctx1 active2 ctx2 svc =
     (let first = inject_user_context str_of_dict session uid active1 ctx1 svc;
          second = inject_user_context str_of_dict (fst (snd first)) uid active2 ctx2
                     (snd (snd first))
      in (first, second))"

definition get_user_context_from_session :: "Session \<Rightarrow> UserContext option" where
  "get_user_context_from_session session =
     (if (case state session ''context_injected'' of None \<Rightarrow> False | Some v \<Rightarrow> truthy v)
      then Some \<lparr>uc_user_profile = state session ''user_profile'',
                 uc_user_id = state session ''user_id'',
                 uc_personalized_context = state session ''personalized_context'',
                 uc_context_timestamp = state session ''context_timestamp''\<rparr>
      else None)"


section \<open>Runs of the service\<close>

text \<open>
  An operation of the service together with the inputs it draws from its environment
  (fresh identifier, clock reads). \<^term>\<open>step\<close> is the effect of one call on the service,
  \<^term>\<open>run\<close> the effect of a sequence of calls, first to last.
\<close>

datatype op =
    Create string datetime CreateUserProfileRequest
  | Get string
  | Update string datetime UpdateUserProfileRequest
  | Delete string
  | ListProfiles int int
  | Touch string datetime
  | Inject "(string \<times> string) list \<Rightarrow> string" Session string datetime datetime

fun step :: "op \<Rightarrow> service \<Rightarrow> service" where
  "step (Create uid now request) svc = snd (create_user_profile uid now request svc)"
| "step (Get uid) svc = snd (get_user_profile uid svc)"
| "step (Update uid now request) svc = snd (update_user_profile uid now request svc)"
| "step (Delete uid) svc = snd (delete_user_profile uid svc)"
| "step (ListProfiles limit offset) svc = snd (list_user_profiles limit offset svc)"
| "step (Touch uid now) svc = snd (update_last_active uid now svc)"
| "step (Inject f session uid now_active now_ctx) svc =
     snd (snd (inject_user_context f session uid now_active now_ctx svc))"

fun run :: "op list \<Rightarrow> service \<Rightarrow> service" where
  "run [] svc = svc"
| "run (x # xs) svc = run xs (step x svc)"

text \<open>The records held by the store in use, in the store's order, and every record held
  anywhere (the dict keeps its content while the database is in use and is what remains
  after a fallback).\<close>

definition persisted :: "service \<Rightarrow> (string \<times> UserProfile) list" where
  "persisted svc = (case db svc of None \<Rightarrow> memory_store svc | Some fs \<Rightarrow> docs fs)"

definition stored_profiles :: "service \<Rightarrow> UserProfile set" where
  "stored_profiles svc =
     snd ` set (memory_store svc)
     \<union> (case db svc of None \<Rightarrow> {} | Some fs \<Rightarrow> snd ` set (docs fs))"

section \<open>The specification's notions\<close>

text \<open>The completeness rule in the specification's words: the four basic fields are
  non-empty, and the travel interests or the accessibility profile have content.\<close>

definition spec_profile_complete :: "UserProfile \<Rightarrow> bool" where
  "spec_profile_complete p =
     ((name (basic_info p) \<noteq> [] \<and> email (basic_info p) \<noteq> []
       \<and> nationality (basic_info p) \<noteq> [] \<and> home_location (basic_info p) \<noteq> [])
      \<and> ((preferred_destinations (travel_interests p) \<noteq> []
           \<or> travel_style (travel_interests p) \<noteq> []
           \<or> activity_interests (travel_interests p) \<noteq> [])
          \<or> (mobility_needs (accessibility_profile p) \<noteq> []
              \<or> sensory_needs (accessibility_profile p) \<noteq> []
              \<or> assistance_preferences (accessibility_profile p) \<noteq> [])))"

text \<open>The partial update in the specification's words: the sub-objects present in the
  request replace the stored ones, \<^verbatim>\<open>updated_at\<close> is refreshed, and the completeness flag
  is recomputed when a completeness-relevant sub-object is present; nothing else changes.\<close>

definition merge_request :: "datetime \<Rightarrow> UpdateUserProfileRequest \<Rightarrow> UserProfile \<Rightarrow> UserProfile" where
  "merge_request now request existing =
     (let merged =
            existing
              \<lparr>basic_info :=
                 (case u_basic_info request of None \<Rightarrow> basic_info existing | Some b \<Rightarrow> b),
               travel_interests :=
                 (case u_travel_interests request of
                    None \<Rightarrow> travel_interests existing | Some t \<Rightarrow> t),
               accessibility_profile :=
                 (case u_accessibility_profile request of
                    None \<Rightarrow> accessibility_profile existing | Some a \<Rightarrow> a),
               preferences :=
                 (case u_preferences request of None \<Rightarrow> preferences existing | Some u \<Rightarrow> u),
               updated_at := now\<rparr>
      in if u_basic_info request = None \<and> u_travel_interests request = None
            \<and> u_accessibility_profile request = None
         then merged
         else merged\<lparr>profile_complete := spec_profile_complete merged\<rparr>)"

text \<open>The records of a store with the \<^verbatim>\<open>last_active\<close> field blanked: two stores agree
  on it when they hold the same records in the same order up to that field.\<close>

definition without_last_active :: "(string \<times> UserProfile) list \<Rightarrow> (string \<times> UserProfile) list" where
  "without_last_active al = map (\<lambda>e. (fst e, (snd e)\<lparr>last_active := None\<rparr>)) al"

text \<open>The number of distinct entries of a list.\<close>

definition distinct_count :: "'a list \<Rightarrow> nat" where
  "distinct_count xs = length (remdups xs)"

text \<open>
  The identifiers of the profiles created and not deleted, in the order of their
  creation, read off a run: a creation appends its identifier, a deletion removes it.
  \<^term>\<open>created_ids\<close> and \<^term>\<open>created_times\<close> are the identifiers drawn and the clock
  reads of the creations of a run. A window of a list is given by positions.
\<close>

fun live_after :: "op \<Rightarrow> string list \<Rightarrow> string list" where
  "live_after (Create uid now request) ids = ids @ [uid]"
| "live_after (Delete uid) ids = removeAll uid ids"
| "live_after x ids = ids"

fun live_ids :: "op list \<Rightarrow> string list \<Rightarrow> string list" where
  "live_ids [] ids = ids"
| "live_ids (x # xs) ids = live_ids xs (live_after x ids)"

definition creation_order :: "op list \<Rightarrow> string list" where
  "creation_order ops = live_ids ops []"

fun created_ids :: "op list \<Rightarrow> string list" where
  "created_ids [] = []"
| "created_ids (Create uid now request # xs) = uid # created_ids xs"
| "created_ids (x # xs) = created_ids xs"

fun created_times :: "op list \<Rightarrow> datetime list" where
  "created_times [] = []"
| "created_times (Create uid now request # xs) = now # created_times xs"
| "created_times (x # xs) = created_times xs"

definition page_window :: "int \<Rightarrow> int \<Rightarrow> 'a list \<Rightarrow> 'a list" where
  "page_window limit offset xs =
     map (\<lambda>i. xs ! i) [nat offset ..< min (nat offset + nat limit) (length xs)]"

text \<open>No call of the database client raises from here on.\<close>

definition no_outage :: "service \<Rightarrow> bool" where
  "no_outage svc = (case db svc of None \<Rightarrow> True | Some fs \<Rightarrow> True \<notin> set (faults fs))"

text \<open>The record stored for an identifier by the store in use.\<close>

definition stored_profile :: "service \<Rightarrow> string \<Rightarrow> UserProfile option" where
  "stored_profile svc uid = map_of (persisted svc) uid"

section \<open>Concrete inputs\<close>

definition basic_A :: BasicInfo where
  "basic_A =
     \<lparr>name = ''A'', email = ''a@b.com'', age = None, nationality = ''US'',
      home_location = ''X'', phone = None, emergency_contact = None\<rparr>"

definition request_paris :: CreateUserProfileRequest where
  "request_paris =
     \<lparr>c_basic_info = basic_A,
      c_travel_interests = Some (TravelInterests_default\<lparr>preferred_destinations := [''Paris'']\<rparr>),
      c_accessibility_profile = None,
      c_preferences = None\<rparr>"

definition request_wheelchair :: CreateUserProfileRequest where
  "request_wheelchair =
     \<lparr>c_basic_info = basic_A,
      c_travel_interests = None,
      c_accessibility_profile =
        Some (AccessibilityProfile_default\<lparr>mobility_needs := [''wheelchair_accessible'']\<rparr>),
      c_preferences = None\<rparr>"

definition request_repeated :: CreateUserProfileRequest where
  "request_repeated =
     \<lparr>c_basic_info = basic_A,
      c_travel_interests =
        Some (TravelInterests_default\<lparr>preferred_destinations := [''Paris'', ''Paris'']\<rparr>),
      c_accessibility_profile =
        Some (AccessibilityProfile_default
                \<lparr>mobility_needs := [''step_free_access''],
                 sensory_needs := [''step_free_access'']\<rparr>),
      c_preferences = None\<rparr>"

definition update_style :: UpdateUserProfileRequest where
  "update_style =
     \<lparr>u_basic_info = None, u_travel_interests = None, u_accessibility_profile = None,
      u_preferences = Some (UserPreferences_default\<lparr>communication_style := BRIEF\<rparr>)\<rparr>"

definition update_clear :: UpdateUserProfileRequest where
  "update_clear =
     \<lparr>u_basic_info = None, u_travel_interests = Some TravelInterests_default,
      u_accessibility_profile = None, u_preferences = None\<rparr>"

definition memory_service :: service where
  "memory_service = init_service None"

definition backend_service :: "bool list \<Rightarrow> service" where
  "backend_service schedule = init_service (Some \<lparr>docs = [], faults = schedule\<rparr>)"

definition empty_session :: Session where
  "empty_session = \<lparr>state = Map.empty\<rparr>"

definition no_dict_str :: "(string \<times> string) list \<Rightarrow> string" where
  "no_dict_str kvs = ''{}''"

definition five_creates :: "op list" where
  "five_creates =
     [Create ''u1'' 1 request_paris, Create ''u2'' 2 request_wheelchair,
      Create ''u3'' 3 request_paris, Create ''u4'' 4 request_wheelchair,
      Create ''u5'' 5 request_paris]"

section \<open>Shared lemmas\<close>

lemmas example_defs =
  new_profile_def request_repeated_def request_paris_def request_wheelchair_def
  basic_A_def TravelInterests_default_def AccessibilityProfile_default_def
  UserPreferences_default_def

lemma count_eq_distinct_count: "(length xs = distinct_count xs) = distinct xs"
proof -
  have "(length xs = length (remdups xs)) = (length (remdups xs) = length xs)"
    by (rule eq_commute)
  then show ?thesis
    unfolding distinct_count_def by simp
qed

subsection \<open>Association lists\<close>

lemma in_update: "(a, b) \<in> set (AList.update k v al) \<Longrightarrow> b = v \<or> (a, b) \<in> set al"
  by (induction al) (auto split: if_splits)

lemma in_delete: "(a, b) \<in> set (AList.delete k al) \<Longrightarrow> (a, b) \<in> set al"
  by (auto simp: AList.delete_eq)

lemma in_map_entry:
  "(a, b) \<in> set (AList.map_entry k f al) \<Longrightarrow>
   (a, b) \<in> set al \<or> (\<exists>v. (k, v) \<in> set al \<and> b = f v)"
  by (induction al) (auto split: if_splits)

lemma snd_in: "(a, b) \<in> set xs \<Longrightarrow> b \<in> snd ` set xs"
  by force

lemma map_entry_absent: "map_of al k = None \<Longrightarrow> AList.map_entry k f al = al"
  by (induction al) (auto split: if_splits)

lemma map_entry_agree:
  "map_of al k = Some v \<Longrightarrow> f v = g v \<Longrightarrow> AList.map_entry k f al = AList.map_entry k g al"
  by (induction al) (auto split: if_splits)

lemma map_of_map_entry_same:
  "map_of al k = Some v \<Longrightarrow> map_of (AList.map_entry k f al) k = Some (f v)"
  by (simp add: map_of_map_entry)

lemma delete_absent: "map_of al k = None \<Longrightarrow> AList.delete k al = al"
  by (simp add: map_of_eq_None_iff)

subsection \<open>The backend's schedule\<close>

lemma docs_advance [simp]: "docs (advance fs) = docs fs"
  by (simp add: advance_def)

lemma faults_advance [simp]: "faults (advance fs) = tl (faults fs)"
  by (simp add: advance_def)

lemma advance_docs_update [simp]: "advance (fs\<lparr>docs := d\<rparr>) = (advance fs)\<lparr>docs := d\<rparr>"
  by (simp add: advance_def)

lemma raises_docs_update [simp]: "raises (fs\<lparr>docs := d\<rparr>) = raises fs"
  by (simp add: raises_def)

lemma raises_Cons: "faults fs = b # rest \<Longrightarrow> raises fs = b"
  by (simp add: raises_def)

subsection \<open>Completeness and merging\<close>

lemma is_complete_from_profile_spec:
  "is_profile_complete_from_profile p = spec_profile_complete p"
  by (simp add: is_profile_complete_from_profile_def spec_profile_complete_def)

lemma new_profile_complete:
  "profile_complete (new_profile uid now request) =
     spec_profile_complete (new_profile uid now request)"
  by (cases "c_travel_interests request"; cases "c_accessibility_profile request")
     (simp_all add: new_profile_def is_profile_complete_def spec_profile_complete_def
        TravelInterests_default_def AccessibilityProfile_default_def Let_def)

lemma apply_build_update_data:
  "apply_update (build_update_data now request p) p = merge_request now request p"
  by (cases "u_basic_info request"; cases "u_travel_interests request";
      cases "u_accessibility_profile request"; cases "u_preferences request")
     (simp_all add: build_update_data_def apply_update_def merge_request_def empty_update_def
        is_complete_from_profile_spec Let_def)

lemma apply_touch_fun:
  "apply_update (empty_update\<lparr>d_last_active := Some t\<rparr>) = (\<lambda>p. p\<lparr>last_active := Some t\<rparr>)"
  by (rule ext) (simp add: apply_update_def empty_update_def)

lemma merge_request_complete:
  "profile_complete p = spec_profile_complete p \<Longrightarrow>
   profile_complete (merge_request now request p) =
     spec_profile_complete (merge_request now request p)"
  by (cases "u_basic_info request"; cases "u_travel_interests request";
      cases "u_accessibility_profile request"; cases "u_preferences request")
     (simp_all add: merge_request_def spec_profile_complete_def Let_def)

lemma touch_complete:
  "profile_complete p = spec_profile_complete p \<Longrightarrow>
   profile_complete (p\<lparr>last_active := t\<rparr>) = spec_profile_complete (p\<lparr>last_active := t\<rparr>)"
  by (simp add: spec_profile_complete_def)

subsection \<open>The operations, store by store\<close>

lemma create_memory:
  "db svc = None \<Longrightarrow>
   create_user_profile uid now request svc =
     (Inr (new_profile uid now request),
      svc\<lparr>memory_store := AList.update uid (new_profile uid now request) (memory_store svc)\<rparr>)"
  by (simp add: create_user_profile_def create_body_def Let_def)

lemma create_backend:
  "db svc = Some fs \<Longrightarrow>
   create_user_profile uid now request svc =
     (Inr (new_profile uid now request),
      if raises fs
      then svc\<lparr>db := None,
               memory_store := AList.update uid (new_profile uid now request) (memory_store svc)\<rparr>
      else svc\<lparr>db := Some ((advance fs)
               \<lparr>docs := AList.update uid (new_profile uid now request) (docs fs)\<rparr>)\<rparr>)"
  by (simp add: create_user_profile_def create_body_def doc_set_def Let_def)

lemma get_memory:
  "db svc = None \<Longrightarrow> get_user_profile uid svc = (map_of (memory_store svc) uid, svc)"
  by (simp add: get_user_profile_def)

lemma get_backend:
  "db svc = Some fs \<Longrightarrow>
   get_user_profile uid svc =
     (if raises fs then None else map_of (docs fs) uid, svc\<lparr>db := Some (advance fs)\<rparr>)"
  by (simp add: get_user_profile_def doc_get_def)

lemma update_memory:
  "db svc = None \<Longrightarrow>
   update_user_profile uid now request svc =
     (map_option (merge_request now request) (map_of (memory_store svc) uid),
      svc\<lparr>memory_store :=
        AList.map_entry uid (merge_request now request) (memory_store svc)\<rparr>)"
proof (cases "map_of (memory_store svc) uid")
  case None
  assume "db svc = None"
  with None show ?thesis
    by (simp add: update_user_profile_def get_memory map_entry_absent)
next
  case (Some e)
  assume m: "db svc = None"
  have "AList.map_entry uid (apply_update (build_update_data now request e)) (memory_store svc)
        = AList.map_entry uid (merge_request now request) (memory_store svc)"
    using Some by (rule map_entry_agree) (rule apply_build_update_data)
  with m Some show ?thesis
    by (simp add: update_user_profile_def get_memory Let_def map_of_map_entry_same)
qed

lemma update_backend:
  "db svc = Some fs \<Longrightarrow>
   update_user_profile uid now request svc =
     (if raises fs then (None, svc\<lparr>db := Some (advance fs)\<rparr>)
      else case map_of (docs fs) uid of
        None \<Rightarrow> (None, svc\<lparr>db := Some (advance fs)\<rparr>)
      | Some e \<Rightarrow>
          if raises (advance fs) then (None, svc\<lparr>db := Some (advance (advance fs))\<rparr>)
          else (if raises (advance (advance fs)) then None
                else Some (merge_request now request e),
                svc\<lparr>db := Some ((advance (advance (advance fs)))
                  \<lparr>docs := AList.map_entry uid (merge_request now request) (docs fs)\<rparr>)\<rparr>))"
proof (cases "map_of (docs fs) uid")
  case None
  assume "db svc = Some fs"
  with None show ?thesis
    by (simp add: update_user_profile_def get_backend)
next
  case (Some e)
  assume m: "db svc = Some fs"
  have "AList.map_entry uid (apply_update (build_update_data now request e)) (docs fs)
        = AList.map_entry uid (merge_request now request) (docs fs)"
    using Some by (rule map_entry_agree) (rule apply_build_update_data)
  with m Some show ?thesis
    by (simp add: update_user_profile_def get_backend Let_def doc_update_def
        map_of_map_entry_same)
qed

lemma delete_memory:
  "db svc = None \<Longrightarrow>
   delete_user_profile uid svc =
     (map_of (memory_store svc) uid \<noteq> None,
      svc\<lparr>memory_store := AList.delete uid (memory_store svc)\<rparr>)"
  by (cases "map_of (memory_store svc) uid")
     (simp_all add: delete_user_profile_def delete_absent)

lemma delete_backend:
  "db svc = Some fs \<Longrightarrow>
   delete_user_profile uid svc =
     (if raises fs then (False, svc\<lparr>db := Some (advance fs)\<rparr>)
      else case map_of (docs fs) uid of
        None \<Rightarrow> (False, svc\<lparr>db := Some (advance fs)\<rparr>)
      | Some e \<Rightarrow>
          if raises (advance fs) then (False, svc\<lparr>db := Some (advance (advance fs))\<rparr>)
          else (True, svc\<lparr>db := Some ((advance (advance fs))
                  \<lparr>docs := AList.delete uid (docs fs)\<rparr>)\<rparr>))"
  by (cases "map_of (docs fs) uid")
     (simp_all add: delete_user_profile_def doc_get_def doc_delete_def)

lemma list_memory:
  "db svc = None \<Longrightarrow>
   list_user_profiles limit offset svc =
     (map create_profile_summary (py_slice offset (offset + limit) (map snd (memory_store svc))),
      svc)"
  by (simp add: list_user_profiles_def Let_def)

lemma list_backend:
  "db svc = Some fs \<Longrightarrow>
   list_user_profiles limit offset svc =
     (if raises fs \<or> offset < 0 \<or> limit < 0 then []
      else map create_profile_summary
             (take (nat limit) (drop (nat offset) (sort_key created_at (map snd (docs fs))))),
      svc\<lparr>db := Some (advance fs)\<rparr>)"
  by (simp add: list_user_profiles_def doc_query_def)

lemma touch_memory:
  "db svc = None \<Longrightarrow>
   update_last_active uid now svc =
     (map_of (memory_store svc) uid \<noteq> None,
      svc\<lparr>memory_store :=
        AList.map_entry uid (\<lambda>p. p\<lparr>last_active := Some now\<rparr>) (memory_store svc)\<rparr>)"
  by (cases "map_of (memory_store svc) uid")
     (simp_all add: update_last_active_def Let_def apply_touch_fun map_entry_absent)

lemma touch_backend:
  "db svc = Some fs \<Longrightarrow>
   update_last_active uid now svc =
     (\<not> raises fs \<and> map_of (docs fs) uid \<noteq> None,
      svc\<lparr>db := Some ((advance fs)
        \<lparr>docs := if raises fs then docs fs
                 else AList.map_entry uid (\<lambda>p. p\<lparr>last_active := Some now\<rparr>) (docs fs)\<rparr>)\<rparr>)"
  by (cases "map_of (docs fs) uid")
     (simp_all add: update_last_active_def Let_def doc_update_def apply_touch_fun
        map_entry_absent)

subsection \<open>Properties of every stored record\<close>

lemma list_all_update:
  "list_all (\<lambda>e. P (snd e)) al \<Longrightarrow> P v \<Longrightarrow> list_all (\<lambda>e. P (snd e)) (AList.update k v al)"
  by (induction al) auto

lemma list_all_delete:
  "list_all (\<lambda>e. P (snd e)) al \<Longrightarrow> list_all (\<lambda>e. P (snd e)) (AList.delete k al)"
  by (induction al) auto

lemma list_all_map_entry:
  "list_all (\<lambda>e. P (snd e)) al \<Longrightarrow> (\<And>p. P p \<Longrightarrow> P (f p)) \<Longrightarrow>
   list_all (\<lambda>e. P (snd e)) (AList.map_entry k f al)"
  by (induction al) auto

lemma all_stored_iff:
  "(\<forall>p \<in> stored_profiles svc. P p) =
     (list_all (\<lambda>e. P (snd e)) (memory_store svc)
      \<and> (case db svc of None \<Rightarrow> True | Some fs \<Rightarrow> list_all (\<lambda>e. P (snd e)) (docs fs)))"
  by (auto simp: stored_profiles_def list_all_iff split: option.splits)

lemma inject_service:
  "snd (snd (inject_user_context f session uid now_active now_ctx svc)) =
     (case fst (get_user_profile uid svc) of
        None \<Rightarrow> snd (get_user_profile uid svc)
      | Some p \<Rightarrow> snd (update_last_active uid now_active (snd (get_user_profile uid svc))))"
  by (cases "get_user_profile uid svc")
     (simp add: inject_user_context_def Let_def split: option.splits)

lemma get_keeps_stored:
  "stored_profiles (snd (get_user_profile uid svc)) = stored_profiles svc"
  by (cases "db svc") (simp_all add: get_memory get_backend stored_profiles_def)

lemma step_keeps_property:
  assumes new: "\<And>uid now request. P (new_profile uid now request)"
    and merge: "\<And>now request p. P p \<Longrightarrow> P (merge_request now request p)"
    and touch: "\<And>t p. P p \<Longrightarrow> P (p\<lparr>last_active := Some t\<rparr>)"
    and before: "\<forall>p \<in> stored_profiles svc. P p"
  shows "\<forall>p \<in> stored_profiles (step x svc). P p"
proof -
  have touched: "\<forall>p \<in> stored_profiles (snd (update_last_active uid t s)). P p"
    if "\<forall>p \<in> stored_profiles s. P p" for uid t s
  proof (cases "db s")
    case None
    with that show ?thesis
      by (simp add: all_stored_iff touch_memory list_all_map_entry touch)
  next
    case (Some fs)
    with that show ?thesis
      by (simp add: all_stored_iff touch_backend list_all_map_entry touch)
  qed
  show ?thesis
  proof (cases x)
    case (Create uid now request)
    show ?thesis
    proof (cases "db svc")
      case None
      with before Create show ?thesis
        by (simp add: all_stored_iff create_memory list_all_update new)
    next
      case (Some fs)
      with before Create show ?thesis
        by (simp add: all_stored_iff create_backend list_all_update new)
    qed
  next
    case (Get uid)
    with before show ?thesis by (simp add: get_keeps_stored)
  next
    case (Update uid now request)
    show ?thesis
    proof (cases "db svc")
      case None
      with before Update show ?thesis
        by (simp add: all_stored_iff update_memory list_all_map_entry merge)
    next
      case (Some fs)
      with before Update show ?thesis
        by (simp add: all_stored_iff update_backend list_all_map_entry merge
            split: option.splits)
    qed
  next
    case (Delete uid)
    show ?thesis
    proof (cases "db svc")
      case None
      with before Delete show ?thesis
        by (simp add: all_stored_iff delete_memory list_all_delete)
    next
      case (Some fs)
      with before Delete show ?thesis
        by (simp add: all_stored_iff delete_backend list_all_delete split: option.splits)
    qed
  next
    case (ListProfiles limit offset)
    with before show ?thesis
      by (cases "db svc") (simp_all add: all_stored_iff list_memory list_backend)
  next
    case (Touch uid now)
    with before show ?thesis by (simp add: touched)
  next
    case (Inject f session uid now_active now_ctx)
    from before have "\<forall>p \<in> stored_profiles (snd (get_user_profile uid svc)). P p"
      by (simp add: get_keeps_stored)
    then have "\<forall>p \<in> stored_profiles
        (snd (update_last_active uid now_active (snd (get_user_profile uid svc)))). P p"
      by (rule touched)
    with before Inject show ?thesis
      by (simp add: inject_service get_keeps_stored split: option.splits)
  qed
qed

lemma run_keeps_property:
  assumes new: "\<And>uid now request. P (new_profile uid now request)"
    and merge: "\<And>now request p. P p \<Longrightarrow> P (merge_request now request p)"
    and touch: "\<And>t p. P p \<Longrightarrow> P (p\<lparr>last_active := Some t\<rparr>)"
  shows "\<forall>p \<in> stored_profiles svc. P p \<Longrightarrow> \<forall>p \<in> stored_profiles (run ops svc). P p"
proof (induction ops arbitrary: svc)
  case Nil
  then show ?case by simp
next
  case (Cons x xs)
  from new merge touch Cons.prems have "\<forall>p \<in> stored_profiles (step x svc). P p"
    by (rule step_keeps_property)
  then show ?case by (simp add: Cons.IH)
qed

subsection \<open>Runs without outage\<close>

lemma clean_not_raises: "True \<notin> set (faults fs) \<Longrightarrow> \<not> raises fs"
  by (cases "faults fs") (auto simp: raises_def)

lemma clean_advance: "True \<notin> set (faults fs) \<Longrightarrow> True \<notin> set (faults (advance fs))"
  by (cases "faults fs") auto

lemma no_outage_calls:
  assumes "no_outage svc" "db svc = Some fs"
  shows "\<not> raises fs" "\<not> raises (advance fs)" "\<not> raises (advance (advance fs))"
proof -
  from assms have c: "True \<notin> set (faults fs)"
    by (simp add: no_outage_def)
  then show "\<not> raises fs" by (rule clean_not_raises)
  from c have c1: "True \<notin> set (faults (advance fs))" by (rule clean_advance)
  then show "\<not> raises (advance fs)" by (rule clean_not_raises)
  from c1 have "True \<notin> set (faults (advance (advance fs)))" by (rule clean_advance)
  then show "\<not> raises (advance (advance fs))" by (rule clean_not_raises)
qed

subsection \<open>Context injection\<close>

lemma inject_absent:
  "fst (get_user_profile uid svc) = None \<Longrightarrow>
   inject_user_context f session uid now_active now_ctx svc =
     (False, session, snd (get_user_profile uid svc))"
  by (cases "get_user_profile uid svc") (simp add: inject_user_context_def)

lemma inject_present:
  "fst (get_user_profile uid svc) = Some p \<Longrightarrow>
   inject_user_context f session uid now_active now_ctx svc =
     (True,
      session\<lparr>state := (state session)
         (''user_profile'' \<mapsto> VProfile p,
          ''user_id'' \<mapsto> VStr uid,
          ''context_injected'' \<mapsto> VBool True,
          ''context_timestamp'' \<mapsto> VTimestamp now_ctx,
          ''personalized_context'' \<mapsto> VContext (create_personalized_context f p))\<rparr>,
      snd (update_last_active uid now_active (snd (get_user_profile uid svc))))"
  by (cases "get_user_profile uid svc") (simp add: inject_user_context_def Let_def)

lemma get_result:
  "fst (get_user_profile uid svc) = None
   \<or> fst (get_user_profile uid svc) = stored_profile svc uid"
  by (cases "db svc") (simp_all add: get_memory get_backend stored_profile_def persisted_def)

lemma get_result_clean:
  "no_outage svc \<Longrightarrow> fst (get_user_profile uid svc) = stored_profile svc uid"
  using no_outage_calls(1) [of svc]
  by (cases "db svc") (simp_all add: get_memory get_backend stored_profile_def persisted_def)

lemma context_ignores_last_active:
  "create_personalized_context f (p\<lparr>last_active := t\<rparr>) = create_personalized_context f p"
  by (simp add: create_personalized_context_def create_accessibility_summary_def
      create_travel_preferences_summary_def generate_personalized_instructions_def
      base_context_def accessibility_context_def travel_context_def)

lemma sublist_in_middle: "sublist xs ys \<Longrightarrow> sublist xs (a @ ys @ b)"
proof -
  assume "sublist xs ys"
  then obtain ps ss where "ys = ps @ xs @ ss"
    by (auto simp: sublist_def)
  then have "a @ ys @ b = (a @ ps) @ xs @ (ss @ b)"
    by simp
  then show ?thesis
    unfolding sublist_def by blast
qed

lemma planning_instruction:
  "\<exists>closing. map_of (generate_personalized_instructions f p) ''planning_agent''
     = Some (base_context p @ accessibility_context f p @ travel_context p @ closing)"
  by (simp add: generate_personalized_instructions_def Let_def)

lemma mobility_in_accessibility_context:
  assumes "mobility_needs (accessibility_profile p) = [need]"
  shows "sublist need (accessibility_context f p)"
proof -
  from assms have "\<exists>rest. accessibility_context f p =
      ''\<newline>ACCESSIBILITY NEEDS:\<newline>- Mobility: '' @ need @ rest"
    by (simp add: accessibility_context_def join_or_def Let_def)
  then obtain rest where "accessibility_context f p =
      ''\<newline>ACCESSIBILITY NEEDS:\<newline>- Mobility: '' @ need @ rest"
    by blast
  then show ?thesis
    by (simp only: sublist_appendI)
qed

lemma inject_memory:
  assumes "db svc = None"
  shows "snd (snd (inject_user_context f session uid now_active now_ctx svc)) =
     svc\<lparr>memory_store :=
       AList.map_entry uid (\<lambda>p. p\<lparr>last_active := Some now_active\<rparr>) (memory_store svc)\<rparr>"
proof (cases "map_of (memory_store svc) uid")
  case None
  with assms show ?thesis
    by (simp add: inject_absent get_memory map_entry_absent)
next
  case (Some p)
  with assms have "fst (get_user_profile uid svc) = Some p"
    by (simp add: get_memory)
  with assms show ?thesis
    by (simp add: inject_present get_memory touch_memory)
qed

lemma inject_backend_result:
  assumes "db svc = Some fs"
  shows "fst (inject_user_context f session uid now_active now_ctx svc)
     = (\<not> raises fs \<and> map_of (docs fs) uid \<noteq> None)"
proof (cases "fst (get_user_profile uid svc)")
  case None
  with assms show ?thesis
    by (simp add: inject_absent get_backend split: if_splits)
next
  case (Some p)
  with assms show ?thesis
    by (simp add: inject_present get_backend split: if_splits)
qed

lemma inject_backend_service:
  assumes "db svc = Some fs"
  shows "snd (snd (inject_user_context f session uid now_active now_ctx svc)) =
     svc\<lparr>db := Some
        (if raises fs \<or> map_of (docs fs) uid = None then advance fs
         else (advance (advance fs))
                \<lparr>docs := if raises (advance fs) then docs fs
                         else AList.map_entry uid (\<lambda>p. p\<lparr>last_active := Some now_active\<rparr>)
                                (docs fs)\<rparr>)\<rparr>"
proof (cases "fst (get_user_profile uid svc)")
  case None
  with assms show ?thesis
    by (simp add: inject_absent get_backend split: if_splits)
next
  case (Some p)
  have d: "db (svc\<lparr>db := Some (advance fs)\<rparr>) = Some (advance fs)"
    by simp
  from Some assms show ?thesis
    by (simp add: inject_present get_backend touch_backend [OF d] split: if_splits)
qed

subsection \<open>Running on the dict\<close>

lemma step_stays_in_memory: "db svc = None \<Longrightarrow> db (step x svc) = None"
  by (cases x)
     (simp_all add: create_memory get_memory update_memory delete_memory list_memory
        touch_memory inject_memory)

lemma run_stays_in_memory: "db svc = None \<Longrightarrow> db (run ops svc) = None"
  by (induction ops arbitrary: svc) (simp_all add: step_stays_in_memory)

subsection \<open>Order of the store in use\<close>

lemma update_fresh: "k \<notin> set (map fst al) \<Longrightarrow> AList.update k v al = al @ [(k, v)]"
  by (induction al) auto

lemma map_entry_keys: "map fst (AList.map_entry k f al) = map fst al"
  by (induction al) auto

lemma map_entry_created_at:
  "(\<And>p. created_at (f p) = created_at p) \<Longrightarrow>
   map (\<lambda>e. created_at (snd e)) (AList.map_entry k f al) = map (\<lambda>e. created_at (snd e)) al"
  by (induction al) auto

lemma merge_request_created_at: "created_at (merge_request now request p) = created_at p"
  by (simp add: merge_request_def Let_def)

lemma no_outage_advance:
  "no_outage svc \<Longrightarrow> db svc = Some fs \<Longrightarrow> no_outage (svc\<lparr>db := Some ((advance fs)\<lparr>docs := d\<rparr>)\<rparr>)"
  using clean_advance [of fs] by (simp add: no_outage_def)

lemma no_outage_advance': 
  "no_outage svc \<Longrightarrow> db svc = Some fs \<Longrightarrow> no_outage (svc\<lparr>db := Some (advance fs)\<rparr>)"
  using clean_advance [of fs] by (simp add: no_outage_def)

text \<open>Without outage, one call changes the store in use as the same call changes the dict.\<close>

lemma step_persisted:
  assumes "no_outage svc"
  shows "no_outage (step x svc)
     \<and> persisted (step x svc) =
        (case x of
           Create uid now request \<Rightarrow>
             AList.update uid (new_profile uid now request) (persisted svc)
         | Update uid now request \<Rightarrow>
             AList.map_entry uid (merge_request now request) (persisted svc)
         | Delete uid \<Rightarrow> AList.delete uid (persisted svc)
         | Touch uid now \<Rightarrow>
             AList.map_entry uid (\<lambda>p. p\<lparr>last_active := Some now\<rparr>) (persisted svc)
         | Inject f session uid now_active now_ctx \<Rightarrow>
             AList.map_entry uid (\<lambda>p. p\<lparr>last_active := Some now_active\<rparr>) (persisted svc)
         | _ \<Rightarrow> persisted svc)"
proof (cases "db svc")
  case None
  then have "db (step x svc) = None"
    by (rule step_stays_in_memory)
  then have "no_outage (step x svc)"
    by (simp add: no_outage_def)
  moreover from None have "persisted (step x svc) =
        (case x of
           Create uid now request \<Rightarrow>
             AList.update uid (new_profile uid now request) (persisted svc)
         | Update uid now request \<Rightarrow>
             AList.map_entry uid (merge_request now request) (persisted svc)
         | Delete uid \<Rightarrow> AList.delete uid (persisted svc)
         | Touch uid now \<Rightarrow>
             AList.map_entry uid (\<lambda>p. p\<lparr>last_active := Some now\<rparr>) (persisted svc)
         | Inject f session uid now_active now_ctx \<Rightarrow>
             AList.map_entry uid (\<lambda>p. p\<lparr>last_active := Some now_active\<rparr>) (persisted svc)
         | _ \<Rightarrow> persisted svc)"
    by (cases x)
       (simp_all add: persisted_def create_memory get_memory update_memory delete_memory
          list_memory touch_memory inject_memory)
  ultimately show ?thesis by simp
next
  case (Some fs)
  note calls = no_outage_calls [OF assms Some]
  note adv = no_outage_advance [OF assms Some] no_outage_advance' [OF assms Some]
  have adv2: "no_outage (svc\<lparr>db := Some ((advance (advance fs))\<lparr>docs := d\<rparr>)\<rparr>)" for d
    using no_outage_advance [OF adv(2), of "advance fs" d] by simp
  have adv3: "no_outage (svc\<lparr>db := Some ((advance (advance (advance fs)))\<lparr>docs := d\<rparr>)\<rparr>)" for d
    using no_outage_advance [OF adv2 [of "docs fs"], of "(advance (advance fs))\<lparr>docs := docs fs\<rparr>" d]
    by simp
  show ?thesis
  proof (cases x)
    case (Create uid now request)
    with Some calls adv show ?thesis
      by (simp add: persisted_def create_backend)
  next
    case (Get uid)
    with Some calls adv show ?thesis
      by (simp add: persisted_def get_backend)
  next
    case (Update uid now request)
    with Some calls adv adv3 show ?thesis
      by (cases "map_of (docs fs) uid")
         (simp_all add: persisted_def update_backend map_entry_absent)
  next
    case (Delete uid)
    with Some calls adv adv2 show ?thesis
      by (cases "map_of (docs fs) uid")
         (simp_all add: persisted_def delete_backend delete_absent)
  next
    case (ListProfiles limit offset)
    with Some calls adv show ?thesis
      by (simp add: persisted_def list_backend)
  next
    case (Touch uid now)
    with Some calls adv show ?thesis
      by (simp add: persisted_def touch_backend)
  next
    case (Inject f session uid now_active now_ctx)
    with Some calls adv adv2 show ?thesis
      by (cases "map_of (docs fs) uid")
         (simp_all add: persisted_def inject_backend_service map_entry_absent)
  qed
qed

lemma live_after_keys:
  assumes "no_outage svc"
    and "distinct (map fst (persisted svc) @ created_ids (x # xs))"
  shows "map fst (persisted (step x svc)) = live_after x (map fst (persisted svc))"
proof -
  note p = step_persisted [OF assms(1), of x, THEN conjunct2]
  show ?thesis
  proof (cases x)
    case (Create uid now request)
    with assms(2) have "uid \<notin> set (map fst (persisted svc))"
      by auto
    with Create p show ?thesis
      by (simp add: update_fresh)
  qed (use p in \<open>simp_all add: map_entry_keys delete_keys\<close>)
qed

lemma step_keeps_order:
  assumes "no_outage svc"
    and "distinct (map fst (persisted svc) @ created_ids (x # xs))"
    and "sorted_wrt (<) (map (\<lambda>e. created_at (snd e)) (persisted svc) @ created_times (x # xs))"
  shows "distinct (map fst (persisted (step x svc)) @ created_ids xs)"
    and "sorted_wrt (<)
           (map (\<lambda>e. created_at (snd e)) (persisted (step x svc)) @ created_times xs)"
proof -
  note p = step_persisted [OF assms(1), of x, THEN conjunct2]
  note k = live_after_keys [OF assms(1,2)]
  show "distinct (map fst (persisted (step x svc)) @ created_ids xs)"
    using assms(2) unfolding k by (cases x) (auto simp: distinct_removeAll)
  show "sorted_wrt (<)
           (map (\<lambda>e. created_at (snd e)) (persisted (step x svc)) @ created_times xs)"
  proof (cases x)
    case (Create uid now request)
    with assms(2) have "uid \<notin> set (map fst (persisted svc))"
      by auto
    with Create p assms(3) show ?thesis
      by (simp add: update_fresh new_profile_def)
  next
    case (Get uid)
    with p assms(3) show ?thesis by simp
  next
    case (Update uid now request)
    with p assms(3) show ?thesis
      by (simp add: map_entry_created_at merge_request_created_at)
  next
    case (Delete uid)
    have "sorted_wrt (<) (map (\<lambda>e. created_at (snd e)) (AList.delete uid (persisted svc)))"
      using assms(3)
      by (simp add: sorted_wrt_append sorted_wrt_map AList.delete_eq sorted_wrt_filter)
    moreover have "set (AList.delete uid (persisted svc)) \<subseteq> set (persisted svc)"
      by (auto simp: AList.delete_eq)
    ultimately show ?thesis
      using Delete p assms(3) by (auto simp: sorted_wrt_append)
  next
    case (ListProfiles limit offset)
    with p assms(3) show ?thesis by simp
  next
    case (Touch uid now)
    with p assms(3) show ?thesis
      by (simp add: map_entry_created_at)
  next
    case (Inject f session uid now_active now_ctx)
    with p assms(3) show ?thesis
      by (simp add: map_entry_created_at)
  qed
qed

lemma run_order:
  assumes "no_outage svc"
    and "distinct (map fst (persisted svc) @ created_ids ops)"
    and "sorted_wrt (<) (map (\<lambda>e. created_at (snd e)) (persisted svc) @ created_times ops)"
  shows "no_outage (run ops svc)
     \<and> map fst (persisted (run ops svc)) = live_ids ops (map fst (persisted svc))
     \<and> distinct (map fst (persisted (run ops svc)))
     \<and> sorted_wrt (<) (map (\<lambda>e. created_at (snd e)) (persisted (run ops svc)))"
  using assms
proof (induction ops arbitrary: svc)
  case Nil
  then show ?case by simp
next
  case (Cons x xs)
  have n: "no_outage (step x svc)"
    using step_persisted [OF Cons.prems(1), of x] by simp
  have d: "distinct (map fst (persisted (step x svc)) @ created_ids xs)"
    using Cons.prems by (rule step_keeps_order)
  have s: "sorted_wrt (<)
      (map (\<lambda>e. created_at (snd e)) (persisted (step x svc)) @ created_times xs)"
    using Cons.prems by (rule step_keeps_order)
  have k: "map fst (persisted (step x svc)) = live_after x (map fst (persisted svc))"
    using Cons.prems(1,2) by (rule live_after_keys)
  from Cons.IH [OF n d s] show ?case
    by (auto simp: k)
qed

subsection \<open>Windows of a list\<close>

lemma take_min_length: "take (min n (length xs)) xs = take n xs"
  by (simp add: min_def)

lemma py_slice_window:
  assumes "0 \<le> offset" "0 \<le> limit"
  shows "py_slice offset (offset + limit) xs = take (nat limit) (drop (nat offset) xs)"
proof (cases "nat offset \<le> length xs")
  case True
  with assms have "min (nat (offset + limit)) (length xs) - nat offset
      = min (nat limit) (length (drop (nat offset) xs))"
    by (simp add: nat_add_distrib min_def)
  with assms True show ?thesis
    by (simp add: py_slice_def slice_index_def Let_def min_absorb1 take_min_length
        del: length_drop)
next
  case False
  with assms show ?thesis
    by (simp add: py_slice_def slice_index_def Let_def)
qed

lemma page_window_take_drop:
  "page_window limit offset xs = take (nat limit) (drop (nat offset) xs)"
proof -
  define k where "k = nat offset"
  define n where "n = nat limit"
  define m where "m = min (k + n) (length xs)"
  have "map (\<lambda>i. xs ! i) [k ..< m] = take n (drop k xs)"
  proof (rule nth_equalityI)
    show "length (map (\<lambda>i. xs ! i) [k ..< m]) = length (take n (drop k xs))"
      unfolding m_def by (simp add: min_def) arith
  next
    fix i
    assume "i < length (map (\<lambda>i. xs ! i) [k ..< m])"
    then have i: "k + i < m"
      by simp
    then have "i < n" and "k + i < length xs"
      unfolding m_def by simp_all
    then have "take n (drop k xs) ! i = xs ! (k + i)"
      by simp
    moreover from i have "map (\<lambda>i. xs ! i) [k ..< m] ! i = xs ! (k + i)"
      by simp
    ultimately show "map (\<lambda>i. xs ! i) [k ..< m] ! i = take n (drop k xs) ! i"
      by simp
  qed
  then show ?thesis
    unfolding page_window_def k_def n_def m_def .
qed

lemma values_by_key:
  "distinct (map fst al) \<Longrightarrow> map snd al = map (\<lambda>k. the (map_of al k)) (map fst al)"
proof (induction al)
  case Nil
  then show ?case by simp
next
  case (Cons e al)
  then have "fst e \<notin> fst ` set al" by simp
  then have "map (\<lambda>k. the (map_of (e # al) k)) (map fst al)
      = map (\<lambda>k. the (map_of al k)) (map fst al)"
    by (cases e) (auto simp: image_iff)
  with Cons show ?case by (cases e) simp
qed

subsection \<open>Keys and identifiers of the store in use\<close>

lemma step_keeps_distinct:
  assumes "no_outage svc"
    and "distinct (map fst (persisted svc) @ created_ids (x # xs))"
  shows "distinct (map fst (persisted (step x svc)) @ created_ids xs)"
  using assms(2) unfolding live_after_keys [OF assms]
  by (cases x) (auto simp: distinct_removeAll)

lemma run_keys:
  assumes "no_outage svc"
    and "distinct (map fst (persisted svc) @ created_ids ops)"
  shows "no_outage (run ops svc)
     \<and> map fst (persisted (run ops svc)) = live_ids ops (map fst (persisted svc))
     \<and> distinct (map fst (persisted (run ops svc)))"
  using assms
proof (induction ops arbitrary: svc)
  case Nil
  then show ?case by simp
next
  case (Cons x xs)
  have n: "no_outage (step x svc)"
    using step_persisted [OF Cons.prems(1), of x] by simp
  have d: "distinct (map fst (persisted (step x svc)) @ created_ids xs)"
    using Cons.prems by (rule step_keeps_distinct)
  have k: "map fst (persisted (step x svc)) = live_after x (map fst (persisted svc))"
    using Cons.prems by (rule live_after_keys)
  from Cons.IH [OF n d] show ?case
    by (auto simp: k)
qed

lemma step_keeps_store:
  assumes "no_outage svc"
  shows "(db (step x svc) = None) = (db svc = None)"
proof (cases "db svc")
  case None
  then show ?thesis by (simp add: step_stays_in_memory)
next
  case (Some fs)
  note calls = no_outage_calls [OF assms Some]
  have "db (step x svc) \<noteq> None"
  proof (cases x)
    case (Update uid now request)
    with Some calls show ?thesis
      by (cases "map_of (docs fs) uid") (simp_all add: update_backend)
  next
    case (Delete uid)
    with Some calls show ?thesis
      by (cases "map_of (docs fs) uid") (simp_all add: delete_backend)
  qed (use Some calls in \<open>simp_all add: create_backend get_backend list_backend touch_backend
        inject_backend_service\<close>)
  with Some show ?thesis by simp
qed

lemma run_keeps_store:
  "no_outage svc \<Longrightarrow> (db (run ops svc) = None) = (db svc = None)"
proof (induction ops arbitrary: svc)
  case Nil
  then show ?case by simp
next
  case (Cons x xs)
  have "no_outage (step x svc)"
    using step_persisted [OF Cons.prems, of x] by simp
  then have "(db (run xs (step x svc)) = None) = (db (step x svc) = None)"
    by (rule Cons.IH)
  with step_keeps_store [OF Cons.prems, of x] show ?case by simp
qed

lemma keyed_update:
  "list_all (\<lambda>e. user_id (snd e) = fst e) al \<Longrightarrow> user_id v = k \<Longrightarrow>
   list_all (\<lambda>e. user_id (snd e) = fst e) (AList.update k v al)"
  by (induction al) auto

lemma keyed_map_entry:
  "list_all (\<lambda>e. user_id (snd e) = fst e) al \<Longrightarrow> (\<And>p. user_id (f p) = user_id p) \<Longrightarrow>
   list_all (\<lambda>e. user_id (snd e) = fst e) (AList.map_entry k f al)"
  by (induction al) auto

lemma keyed_delete:
  "list_all (\<lambda>e. user_id (snd e) = fst e) al \<Longrightarrow>
   list_all (\<lambda>e. user_id (snd e) = fst e) (AList.delete k al)"
  by (induction al) auto

lemma merge_request_user_id: "user_id (merge_request now request p) = user_id p"
  by (simp add: merge_request_def Let_def)

lemma step_user_ids:
  assumes "no_outage svc"
    and "list_all (\<lambda>e. user_id (snd e) = fst e) (persisted svc)"
  shows "list_all (\<lambda>e. user_id (snd e) = fst e) (persisted (step x svc))"
proof -
  note p = step_persisted [OF assms(1), of x, THEN conjunct2]
  show ?thesis
  proof (cases x)
    case (Create uid now request)
    with p assms(2) show ?thesis
      by (simp add: keyed_update new_profile_def)
  next
    case (Get uid)
    with p assms(2) show ?thesis by simp
  next
    case (Update uid now request)
    with p assms(2) show ?thesis
      by (simp add: keyed_map_entry merge_request_user_id)
  next
    case (Delete uid)
    with p assms(2) show ?thesis
      by (simp add: keyed_delete)
  next
    case (ListProfiles limit offset)
    with p assms(2) show ?thesis by simp
  next
    case (Touch uid now)
    with p assms(2) show ?thesis
      by (simp add: keyed_map_entry)
  next
    case (Inject f session uid now_active now_ctx)
    with p assms(2) show ?thesis
      by (simp add: keyed_map_entry)
  qed
qed

lemma run_user_ids:
  "no_outage svc \<Longrightarrow> list_all (\<lambda>e. user_id (snd e) = fst e) (persisted svc) \<Longrightarrow>
   list_all (\<lambda>e. user_id (snd e) = fst e) (persisted (run ops svc))"
proof (induction ops arbitrary: svc)
  case Nil
  then show ?case by simp
next
  case (Cons x xs)
  have "no_outage (step x svc)"
    using step_persisted [OF Cons.prems(1), of x] by simp
  moreover have "list_all (\<lambda>e. user_id (snd e) = fst e) (persisted (step x svc))"
    using Cons.prems by (rule step_user_ids)
  ultimately show ?case
    by (simp add: Cons.IH)
qed

lemma keyed_user_ids:
  "list_all (\<lambda>e. user_id (snd e) = fst e) al \<Longrightarrow> map user_id (map snd al) = map fst al"
  by (induction al) auto

section \<open>The completeness flag\<close>

lemma stored_profile_in: "stored_profile svc uid = Some p \<Longrightarrow> p \<in> stored_profiles svc"
  by (cases "db svc")
     (auto simp: stored_profile_def persisted_def stored_profiles_def
        dest!: map_of_SomeD intro: snd_in)

text \<open>
  C1. Start the service on a database whose records (if any) carry a correct completeness
  flag, and run any sequence of operations (with any pattern of backend outages). Then
  every record held by the service, in the dict or in the database, has
  \<^verbatim>\<open>profile_complete\<close> true exactly when the four basic fields are non-empty and the
  travel interests or the accessibility profile have content.
\<close>

theorem profile_complete_invariant:
  assumes "\<forall>fs. client = Some fs \<longrightarrow>
             (\<forall>p \<in> snd ` set (docs fs). profile_complete p = spec_profile_complete p)"
  shows "\<forall>p \<in> stored_profiles (run ops (init_service client)).
           profile_complete p = spec_profile_complete p"
proof (rule run_keeps_property)
  show "profile_complete (new_profile uid now request)
          = spec_profile_complete (new_profile uid now request)" for uid now request
    by (rule new_profile_complete)
  show "profile_complete (merge_request now request p)
          = spec_profile_complete (merge_request now request p)"
    if "profile_complete p = spec_profile_complete p" for now request p
    using that by (rule merge_request_complete)
  show "profile_complete (p\<lparr>last_active := Some t\<rparr>)
          = spec_profile_complete (p\<lparr>last_active := Some t\<rparr>)"
    if "profile_complete p = spec_profile_complete p" for t p
    using that by (rule touch_complete)
  from assms show "\<forall>p \<in> stored_profiles (init_service client).
      profile_complete p = spec_profile_complete p"
    by (cases client) (simp_all add: init_service_def stored_profiles_def)
qed

text \<open>A profile with the four basic fields and one destination is complete when created;
  after an update that empties its travel interests the stored record is incomplete.\<close>

theorem profile_complete_invariant_witness:
  "stored_profile
     (run [Create ''u1'' 1 request_paris, Update ''u1'' 2 update_clear] memory_service) ''u1''
     = Some (merge_request 2 update_clear (new_profile ''u1'' 1 request_paris))
   \<and> profile_complete (new_profile ''u1'' 1 request_paris)
   \<and> \<not> profile_complete (merge_request 2 update_clear (new_profile ''u1'' 1 request_paris))"
proof -
  let ?ops = "[Create ''u1'' 1 request_paris, Update ''u1'' 2 update_clear]"
  let ?p = "merge_request 2 update_clear (new_profile ''u1'' 1 request_paris)"
  have s: "stored_profile (run ?ops memory_service) ''u1'' = Some ?p"
    by (simp add: memory_service_def init_service_def create_memory update_memory
        stored_profile_def persisted_def)
  then have "?p \<in> stored_profiles (run ?ops (init_service None))"
    unfolding memory_service_def by (rule stored_profile_in)
  with profile_complete_invariant [of None ?ops]
  have "profile_complete ?p = spec_profile_complete ?p"
    by simp
  moreover have "\<not> spec_profile_complete ?p"
    by (simp add: spec_profile_complete_def merge_request_def update_clear_def example_defs)
  moreover have "profile_complete (new_profile ''u1'' 1 request_paris)"
    by (simp add: is_profile_complete_def example_defs)
  ultimately show ?thesis
    using s by simp
qed

section \<open>Partial updates\<close>

text \<open>
  C2. Let \<open>existing\<close> be the record stored for \<open>uid\<close>. Whenever the update returns a
  profile, that profile is the existing record with exactly the sub-objects present in
  the request replaced, \<^verbatim>\<open>updated_at\<close> set to the current time and
  \<^verbatim>\<open>profile_complete\<close> recomputed when \<^verbatim>\<open>basic_info\<close>, \<^verbatim>\<open>travel_interests\<close> or
  \<^verbatim>\<open>accessibility_profile\<close> is present; it is also the record now stored, and the
  records of other identifiers are untouched. Without a backend outage the update does
  return a profile. Spelled out on the merged record: \<^verbatim>\<open>user_id\<close>, \<^verbatim>\<open>created_at\<close>,
  \<^verbatim>\<open>last_active\<close>, \<^verbatim>\<open>onboarding_completed\<close>, \<^verbatim>\<open>travel_history\<close> and
  \<^verbatim>\<open>learned_preferences\<close> are those of the existing record, as is every sub-object
  absent from the request, and the flag when none of the three relevant sub-objects is
  present.
\<close>

theorem update_merges_request:
  assumes "stored_profile svc uid = Some existing"
  shows
    "(no_outage svc \<longrightarrow>
        fst (update_user_profile uid now request svc)
          = Some (merge_request now request existing))
     \<and> (\<forall>result. fst (update_user_profile uid now request svc) = Some result \<longrightarrow>
          result = merge_request now request existing
          \<and> stored_profile (snd (update_user_profile uid now request svc)) uid = Some result)
     \<and> (\<forall>other. other \<noteq> uid \<longrightarrow>
          stored_profile (snd (update_user_profile uid now request svc)) other
            = stored_profile svc other)
     \<and> user_id (merge_request now request existing) = user_id existing
     \<and> created_at (merge_request now request existing) = created_at existing
     \<and> last_active (merge_request now request existing) = last_active existing
     \<and> onboarding_completed (merge_request now request existing) = onboarding_completed existing
     \<and> travel_history (merge_request now request existing) = travel_history existing
     \<and> learned_preferences (merge_request now request existing) = learned_preferences existing
     \<and> updated_at (merge_request now request existing) = now
     \<and> (u_basic_info request = None \<longrightarrow>
          basic_info (merge_request now request existing) = basic_info existing)
     \<and> (u_travel_interests request = None \<longrightarrow>
          travel_interests (merge_request now request existing) = travel_interests existing)
     \<and> (u_accessibility_profile request = None \<longrightarrow>
          accessibility_profile (merge_request now request existing)
            = accessibility_profile existing)
     \<and> (u_preferences request = None \<longrightarrow>
          preferences (merge_request now request existing) = preferences existing)
     \<and> (u_basic_info request = None \<and> u_travel_interests request = None
          \<and> u_accessibility_profile request = None \<longrightarrow>
          profile_complete (merge_request now request existing) = profile_complete existing)"
proof -
  let ?r = "update_user_profile uid now request svc"
  let ?m = "merge_request now request existing"
  have result: "(no_outage svc \<longrightarrow> fst ?r = Some ?m)
     \<and> (\<forall>result. fst ?r = Some result \<longrightarrow>
          result = ?m \<and> stored_profile (snd ?r) uid = Some result)
     \<and> (\<forall>other. other \<noteq> uid \<longrightarrow> stored_profile (snd ?r) other = stored_profile svc other)"
  proof (cases "db svc")
    case None
    with assms have "map_of (memory_store svc) uid = Some existing"
      by (simp add: stored_profile_def persisted_def)
    with None show ?thesis
      by (simp add: update_memory stored_profile_def persisted_def map_of_map_entry)
  next
    case (Some fs)
    with assms have e: "map_of (docs fs) uid = Some existing"
      by (simp add: stored_profile_def persisted_def)
    have "no_outage svc \<longrightarrow> fst ?r = Some ?m"
      using Some e no_outage_calls [of svc fs] by (simp add: update_backend)
    moreover have "\<forall>result. fst ?r = Some result \<longrightarrow>
          result = ?m \<and> stored_profile (snd ?r) uid = Some result"
      using Some e
      by (simp add: update_backend stored_profile_def persisted_def map_of_map_entry)
    moreover have "\<forall>other. other \<noteq> uid \<longrightarrow>
        stored_profile (snd ?r) other = stored_profile svc other"
      using Some e
      by (simp add: update_backend stored_profile_def persisted_def map_of_map_entry)
    ultimately show ?thesis by blast
  qed
  have frame: "user_id ?m = user_id existing \<and> created_at ?m = created_at existing
     \<and> last_active ?m = last_active existing
     \<and> onboarding_completed ?m = onboarding_completed existing
     \<and> travel_history ?m = travel_history existing
     \<and> learned_preferences ?m = learned_preferences existing
     \<and> updated_at ?m = now"
    by (simp add: merge_request_def Let_def)
  have absent: "(u_basic_info request = None \<longrightarrow> basic_info ?m = basic_info existing)
     \<and> (u_travel_interests request = None \<longrightarrow>
          travel_interests ?m = travel_interests existing)
     \<and> (u_accessibility_profile request = None \<longrightarrow>
          accessibility_profile ?m = accessibility_profile existing)
     \<and> (u_preferences request = None \<longrightarrow> preferences ?m = preferences existing)
     \<and> (u_basic_info request = None \<and> u_travel_interests request = None
          \<and> u_accessibility_profile request = None \<longrightarrow>
          profile_complete ?m = profile_complete existing)"
    by (simp add: merge_request_def Let_def)
  from result frame absent show ?thesis
    by (elim conjE) (intro conjI; assumption)
qed

text \<open>Updating only the communication style of a stored profile: the travel interests
  and the accessibility profile of the result are those of the stored record.\<close>

theorem update_merges_request_witness:
  "stored_profile (step (Create ''u1'' 1 request_wheelchair) memory_service) ''u1''
     = Some (new_profile ''u1'' 1 request_wheelchair)
   \<and> fst (update_user_profile ''u1'' 2 update_style
            (step (Create ''u1'' 1 request_wheelchair) memory_service))
     = Some (merge_request 2 update_style (new_profile ''u1'' 1 request_wheelchair))
   \<and> travel_interests (merge_request 2 update_style (new_profile ''u1'' 1 request_wheelchair))
     = travel_interests (new_profile ''u1'' 1 request_wheelchair)
   \<and> accessibility_profile
       (merge_request 2 update_style (new_profile ''u1'' 1 request_wheelchair))
     = accessibility_profile (new_profile ''u1'' 1 request_wheelchair)
   \<and> communication_style
       (preferences (merge_request 2 update_style (new_profile ''u1'' 1 request_wheelchair)))
     = BRIEF"
proof -
  let ?svc = "step (Create ''u1'' 1 request_wheelchair) memory_service"
  have s: "stored_profile ?svc ''u1'' = Some (new_profile ''u1'' 1 request_wheelchair)"
    by (simp add: memory_service_def init_service_def create_memory stored_profile_def
        persisted_def)
  have o: "no_outage ?svc"
    by (simp add: memory_service_def init_service_def create_memory no_outage_def)
  have n: "u_travel_interests update_style = None \<and> u_accessibility_profile update_style = None"
    by (simp add: update_style_def)
  have c: "communication_style
       (preferences (merge_request 2 update_style (new_profile ''u1'' 1 request_wheelchair)))
     = BRIEF"
    by (simp add: merge_request_def update_style_def UserPreferences_default_def)
  note merged = update_merges_request [OF s, of 2 update_style]
  from merged
  have "no_outage ?svc \<longrightarrow>
      fst (update_user_profile ''u1'' 2 update_style ?svc)
        = Some (merge_request 2 update_style (new_profile ''u1'' 1 request_wheelchair))"
    by (elim conjE)
  with o
  have r: "fst (update_user_profile ''u1'' 2 update_style ?svc)
      = Some (merge_request 2 update_style (new_profile ''u1'' 1 request_wheelchair))"
    by (rule rev_mp)
  from merged
  have "u_travel_interests update_style = None \<longrightarrow>
      travel_interests (merge_request 2 update_style (new_profile ''u1'' 1 request_wheelchair))
        = travel_interests (new_profile ''u1'' 1 request_wheelchair)"
    by (elim conjE)
  with n
  have t: "travel_interests (merge_request 2 update_style (new_profile ''u1'' 1 request_wheelchair))
      = travel_interests (new_profile ''u1'' 1 request_wheelchair)"
    by simp
  from merged
  have "u_accessibility_profile update_style = None \<longrightarrow>
      accessibility_profile
          (merge_request 2 update_style (new_profile ''u1'' 1 request_wheelchair))
        = accessibility_profile (new_profile ''u1'' 1 request_wheelchair)"
    by (elim conjE)
  with n
  have a: "accessibility_profile
        (merge_request 2 update_style (new_profile ''u1'' 1 request_wheelchair))
      = accessibility_profile (new_profile ''u1'' 1 request_wheelchair)"
    by simp
  from s r t a c show ?thesis
    by (intro conjI)
qed

section \<open>Context injection\<close>

text \<open>
  C3. When the lookup of \<open>uid\<close> yields no profile (the identifier is unknown, or the
  backend raised), \<^verbatim>\<open>inject_user_context\<close> returns false and the session is exactly
  the session it was given; so the context read from it is the one read before, and
  still absent when it was absent.
\<close>

theorem inject_unknown_user:
  assumes "fst (get_user_profile uid svc) = None"
  shows "\<not> fst (inject_user_context f session uid now_active now_ctx svc)
     \<and> fst (snd (inject_user_context f session uid now_active now_ctx svc)) = session
     \<and> get_user_context_from_session
          (fst (snd (inject_user_context f session uid now_active now_ctx svc)))
        = get_user_context_from_session session
     \<and> (get_user_context_from_session session = None \<longrightarrow>
          get_user_context_from_session
            (fst (snd (inject_user_context f session uid now_active now_ctx svc))) = None)"
  using assms by (simp add: inject_absent)

text \<open>An identifier that was never created, on a fresh session.\<close>

theorem inject_unknown_user_witness:
  "fst (get_user_profile ''nobody'' memory_service) = None
   \<and> \<not> fst (inject_user_context no_dict_str empty_session ''nobody'' 5 6 memory_service)
   \<and> fst (snd (inject_user_context no_dict_str empty_session ''nobody'' 5 6 memory_service))
       = empty_session
   \<and> get_user_context_from_session
        (fst (snd (inject_user_context no_dict_str empty_session ''nobody'' 5 6 memory_service)))
       = None"
proof -
  have g: "fst (get_user_profile ''nobody'' memory_service) = None"
    by (simp add: memory_service_def init_service_def get_memory)
  have e: "get_user_context_from_session empty_session = None"
    by (simp add: get_user_context_from_session_def empty_session_def)
  from inject_unknown_user [OF g, of no_dict_str empty_session 5 6] g e show ?thesis
    by simp
qed

text \<open>
  C6. Let the record stored for \<open>uid\<close> have exactly the mobility need
  \<^verbatim>\<open>wheelchair_accessible\<close>. Without a backend outage the injection succeeds; and
  whenever it succeeds, the context read back from the session carries a personalized
  context whose accessibility summary has \<^verbatim>\<open>has_mobility_needs\<close> true and whose
  instruction for \<^verbatim>\<open>planning_agent\<close> contains the text \<^verbatim>\<open>wheelchair_accessible\<close>.
\<close>

theorem inject_round_trip:
  assumes "stored_profile svc uid = Some p"
    and "mobility_needs (accessibility_profile p) = [''wheelchair_accessible'']"
  shows "(no_outage svc \<longrightarrow> fst (inject_user_context f session uid now_active now_ctx svc))
     \<and> (fst (inject_user_context f session uid now_active now_ctx svc) \<longrightarrow>
          (\<exists>ctx pc instruction.
             get_user_context_from_session
               (fst (snd (inject_user_context f session uid now_active now_ctx svc))) = Some ctx
             \<and> uc_personalized_context ctx = Some (VContext pc)
             \<and> has_mobility_needs (accessibility_summary pc)
             \<and> map_of (personalized_instructions pc) ''planning_agent'' = Some instruction
             \<and> sublist ''wheelchair_accessible'' instruction))"
proof (intro conjI impI)
  assume "no_outage svc"
  then have "fst (get_user_profile uid svc) = Some p"
    using assms(1) by (simp add: get_result_clean)
  then show "fst (inject_user_context f session uid now_active now_ctx svc)"
    by (simp add: inject_present)
next
  let ?r = "inject_user_context f session uid now_active now_ctx svc"
  let ?pc = "create_personalized_context f p"
  assume ok: "fst ?r"
  have "fst (get_user_profile uid svc) \<noteq> None"
  proof
    assume "fst (get_user_profile uid svc) = None"
    with ok show False by (simp add: inject_absent)
  qed
  with get_result [of uid svc] assms(1) have g: "fst (get_user_profile uid svc) = Some p"
    by simp
  have ctx: "get_user_context_from_session (fst (snd ?r)) =
      Some \<lparr>uc_user_profile = Some (VProfile p), uc_user_id = Some (VStr uid),
            uc_personalized_context = Some (VContext ?pc),
            uc_context_timestamp = Some (VTimestamp now_ctx)\<rparr>"
    by (simp add: inject_present [OF g] get_user_context_from_session_def)
  have m: "has_mobility_needs (accessibility_summary ?pc)"
    using assms(2)
    by (simp add: create_personalized_context_def create_accessibility_summary_def Let_def)
  obtain closing where i: "map_of (generate_personalized_instructions f p) ''planning_agent''
      = Some (base_context p @ accessibility_context f p @ travel_context p @ closing)"
    using planning_instruction by blast
  have "sublist ''wheelchair_accessible'' (accessibility_context f p)"
    using assms(2) by (rule mobility_in_accessibility_context)
  then have s: "sublist ''wheelchair_accessible''
      (base_context p @ accessibility_context f p @ travel_context p @ closing)"
    by (rule sublist_in_middle)
  from i have i': "map_of (personalized_instructions ?pc) ''planning_agent''
      = Some (base_context p @ accessibility_context f p @ travel_context p @ closing)"
    by (simp add: create_personalized_context_def)
  show "\<exists>ctx pc instruction.
      get_user_context_from_session (fst (snd ?r)) = Some ctx
      \<and> uc_personalized_context ctx = Some (VContext pc)
      \<and> has_mobility_needs (accessibility_summary pc)
      \<and> map_of (personalized_instructions pc) ''planning_agent'' = Some instruction
      \<and> sublist ''wheelchair_accessible'' instruction"
    using ctx m i' s by (intro exI conjI) (assumption, simp, assumption+)
qed

text \<open>A profile created with that single mobility need, injected into a fresh session.\<close>

theorem inject_round_trip_witness:
  "stored_profile (step (Create ''u1'' 1 request_wheelchair) memory_service) ''u1''
     = Some (new_profile ''u1'' 1 request_wheelchair)
   \<and> mobility_needs (accessibility_profile (new_profile ''u1'' 1 request_wheelchair))
     = [''wheelchair_accessible'']
   \<and> fst (inject_user_context no_dict_str empty_session ''u1'' 5 6
            (step (Create ''u1'' 1 request_wheelchair) memory_service))
   \<and> (\<exists>ctx pc instruction.
         get_user_context_from_session
           (fst (snd (inject_user_context no_dict_str empty_session ''u1'' 5 6
                       (step (Create ''u1'' 1 request_wheelchair) memory_service)))) = Some ctx
         \<and> uc_personalized_context ctx = Some (VContext pc)
         \<and> has_mobility_needs (accessibility_summary pc)
         \<and> map_of (personalized_instructions pc) ''planning_agent'' = Some instruction
         \<and> sublist ''wheelchair_accessible'' instruction)"
proof -
  let ?svc = "step (Create ''u1'' 1 request_wheelchair) memory_service"
  have s: "stored_profile ?svc ''u1'' = Some (new_profile ''u1'' 1 request_wheelchair)"
    by (simp add: memory_service_def init_service_def create_memory stored_profile_def
        persisted_def)
  have m: "mobility_needs (accessibility_profile (new_profile ''u1'' 1 request_wheelchair))
      = [''wheelchair_accessible'']"
    by (simp add: example_defs)
  have o: "no_outage ?svc"
    by (simp add: memory_service_def init_service_def create_memory no_outage_def)
  note trip = inject_round_trip [OF s m, of no_dict_str empty_session 5 6]
  from trip o have ok: "fst (inject_user_context no_dict_str empty_session ''u1'' 5 6 ?svc)"
    by (elim conjE) (rule mp)
  from trip ok have "\<exists>ctx pc instruction.
         get_user_context_from_session
           (fst (snd (inject_user_context no_dict_str empty_session ''u1'' 5 6 ?svc))) = Some ctx
         \<and> uc_personalized_context ctx = Some (VContext pc)
         \<and> has_mobility_needs (accessibility_summary pc)
         \<and> map_of (personalized_instructions pc) ''planning_agent'' = Some instruction
         \<and> sublist ''wheelchair_accessible'' instruction"
    by (elim conjE) (rule mp)
  with s m ok show ?thesis
    by (intro conjI)
qed

lemma without_last_active_map_entry:
  "without_last_active (AList.map_entry k (\<lambda>p. p\<lparr>last_active := t\<rparr>) al)
     = without_last_active al"
  by (induction al) (auto simp: without_last_active_def)

lemma inject_memory_result:
  assumes "db svc = None"
  shows "fst (inject_user_context f session uid now_active now_ctx svc)
     = (map_of (memory_store svc) uid \<noteq> None)"
proof (cases "map_of (memory_store svc) uid")
  case None
  with assms show ?thesis
    by (simp add: inject_absent get_memory)
next
  case (Some p)
  with assms have "fst (get_user_profile uid svc) = Some p"
    by (simp add: get_memory)
  with Some show ?thesis
    by (simp add: inject_present)
qed

text \<open>
  C7 (as amended). The only field of a stored record that \<^verbatim>\<open>inject_user_context\<close> can
  change is \<^verbatim>\<open>last_active\<close> of the record of \<open>uid\<close>. After a successful lookup it calls
  \<^verbatim>\<open>update_last_active\<close>; when the injection succeeds and that call returns true, the
  record of \<open>uid\<close> is the record stored before with \<^verbatim>\<open>last_active\<close> set to the current
  time, and the store is otherwise as it was; in every other case (the lookup found
  nothing or raised, or the refresh raised) the store in use and the dict are exactly
  as they were. Without a backend outage, a stored \<open>uid\<close> is injected and refreshed.
  Always: up to the \<^verbatim>\<open>last_active\<close> field the store in use and the dict hold the same
  records in the same order before and after, and the record of every other identifier
  is untouched. (\<^const>\<open>get_user_context_from_session\<close> takes the session alone, so it
  cannot touch a stored record.)
\<close>

theorem inject_changes_last_active_only:
  "without_last_active
       (persisted (snd (snd (inject_user_context f session uid now_active now_ctx svc))))
     = without_last_active (persisted svc)
   \<and> without_last_active
       (memory_store (snd (snd (inject_user_context f session uid now_active now_ctx svc))))
     = without_last_active (memory_store svc)
   \<and> (fst (inject_user_context f session uid now_active now_ctx svc)
        \<and> fst (update_last_active uid now_active (snd (get_user_profile uid svc))) \<longrightarrow>
        (\<exists>p. stored_profile svc uid = Some p
           \<and> stored_profile
               (snd (snd (inject_user_context f session uid now_active now_ctx svc))) uid
             = Some (p\<lparr>last_active := Some now_active\<rparr>))
        \<and> persisted (snd (snd (inject_user_context f session uid now_active now_ctx svc)))
          = AList.map_entry uid (\<lambda>p. p\<lparr>last_active := Some now_active\<rparr>) (persisted svc))
   \<and> (\<not> (fst (inject_user_context f session uid now_active now_ctx svc)
           \<and> fst (update_last_active uid now_active (snd (get_user_profile uid svc)))) \<longrightarrow>
        persisted (snd (snd (inject_user_context f session uid now_active now_ctx svc)))
          = persisted svc
        \<and> memory_store (snd (snd (inject_user_context f session uid now_active now_ctx svc)))
          = memory_store svc)
   \<and> (no_outage svc \<and> stored_profile svc uid \<noteq> None \<longrightarrow>
        fst (inject_user_context f session uid now_active now_ctx svc)
        \<and> fst (update_last_active uid now_active (snd (get_user_profile uid svc))))
   \<and> (\<forall>other. other \<noteq> uid \<longrightarrow>
        stored_profile (snd (snd (inject_user_context f session uid now_active now_ctx svc))) other
          = stored_profile svc other)"
proof (cases "db svc")
  case None
  note facts = inject_memory [OF None] inject_memory_result [OF None] get_memory [OF None]
    touch_memory [OF None]
  show ?thesis
  proof (cases "map_of (memory_store svc) uid")
    case absent: None
    with None show ?thesis
      by (simp add: facts persisted_def stored_profile_def map_entry_absent)
  next
    case (Some p)
    with None show ?thesis
      by (simp add: facts persisted_def stored_profile_def without_last_active_map_entry
          map_of_map_entry)
  qed
next
  case (Some fs)
  have d: "db (svc\<lparr>db := Some (advance fs)\<rparr>) = Some (advance fs)"
    by simp
  note facts = inject_backend_service [OF Some] inject_backend_result [OF Some]
    get_backend [OF Some] touch_backend [OF d]
  note calls = no_outage_calls(1,2) [OF _ Some]
  show ?thesis
  proof (cases "raises fs \<or> map_of (docs fs) uid = None")
    case True
    with Some calls(1) show ?thesis
      by (auto simp: facts persisted_def stored_profile_def)
  next
    case found: False
    then obtain p where p: "map_of (docs fs) uid = Some p" and r: "\<not> raises fs"
      by auto
    show ?thesis
    proof (cases "raises (advance fs)")
      case True
      with Some p r calls(2) show ?thesis
        by (auto simp: facts persisted_def stored_profile_def)
    next
      case False
      with Some p r show ?thesis
        by (simp add: facts persisted_def stored_profile_def without_last_active_map_entry
            map_of_map_entry)
    qed
  qed
qed

text \<open>Injecting a stored profile on the dict refreshes \<^verbatim>\<open>last_active\<close> of its record;
  when the backend raises at the refresh, the injection still succeeds and the stored
  record keeps its unset \<^verbatim>\<open>last_active\<close>.\<close>

theorem inject_changes_last_active_only_witness:
  "stored_profile
     (snd (snd (inject_user_context no_dict_str empty_session ''u1'' 5 6
        (step (Create ''u1'' 1 request_wheelchair) memory_service)))) ''u1''
     = Some ((new_profile ''u1'' 1 request_wheelchair)\<lparr>last_active := Some 5\<rparr>)
   \<and> fst (inject_user_context no_dict_str empty_session ''u1'' 5 6
        (step (Create ''u1'' 1 request_wheelchair) (backend_service [False, False, True])))
   \<and> persisted
       (snd (snd (inject_user_context no_dict_str empty_session ''u1'' 5 6
          (step (Create ''u1'' 1 request_wheelchair) (backend_service [False, False, True])))))
     = [(''u1'', new_profile ''u1'' 1 request_wheelchair)]"
proof -
  let ?m = "step (Create ''u1'' 1 request_wheelchair) memory_service"
  let ?b = "step (Create ''u1'' 1 request_wheelchair) (backend_service [False, False, True])"
  let ?np = "new_profile ''u1'' 1 request_wheelchair"
  have sm: "stored_profile ?m ''u1'' = Some ?np"
    by (simp add: memory_service_def init_service_def create_memory stored_profile_def
        persisted_def)
  have om: "no_outage ?m"
    by (simp add: memory_service_def init_service_def create_memory no_outage_def)
  note m = inject_changes_last_active_only [of no_dict_str empty_session "''u1''" 5 6 ?m]
  from m have "no_outage ?m \<and> stored_profile ?m ''u1'' \<noteq> None \<longrightarrow>
      fst (inject_user_context no_dict_str empty_session ''u1'' 5 6 ?m)
      \<and> fst (update_last_active ''u1'' 5 (snd (get_user_profile ''u1'' ?m)))"
    by (elim conjE)
  with om sm have both: "fst (inject_user_context no_dict_str empty_session ''u1'' 5 6 ?m)
      \<and> fst (update_last_active ''u1'' 5 (snd (get_user_profile ''u1'' ?m)))"
    by simp
  from m have "fst (inject_user_context no_dict_str empty_session ''u1'' 5 6 ?m)
        \<and> fst (update_last_active ''u1'' 5 (snd (get_user_profile ''u1'' ?m))) \<longrightarrow>
        (\<exists>p. stored_profile ?m ''u1'' = Some p
           \<and> stored_profile
               (snd (snd (inject_user_context no_dict_str empty_session ''u1'' 5 6 ?m))) ''u1''
             = Some (p\<lparr>last_active := Some 5\<rparr>))
        \<and> persisted (snd (snd (inject_user_context no_dict_str empty_session ''u1'' 5 6 ?m)))
          = AList.map_entry ''u1'' (\<lambda>p. p\<lparr>last_active := Some 5\<rparr>) (persisted ?m)"
    by (elim conjE)
  with both have "\<exists>p. stored_profile ?m ''u1'' = Some p
           \<and> stored_profile
               (snd (snd (inject_user_context no_dict_str empty_session ''u1'' 5 6 ?m))) ''u1''
             = Some (p\<lparr>last_active := Some 5\<rparr>)"
    by simp
  with sm have first: "stored_profile
      (snd (snd (inject_user_context no_dict_str empty_session ''u1'' 5 6 ?m))) ''u1''
      = Some (?np\<lparr>last_active := Some 5\<rparr>)"
    by simp
  have pb: "persisted ?b = [(''u1'', ?np)]"
    by (simp add: backend_service_def init_service_def create_backend persisted_def
        raises_def)
  have nb: "\<not> fst (update_last_active ''u1'' 5 (snd (get_user_profile ''u1'' ?b)))"
    by (simp add: backend_service_def init_service_def create_backend get_backend
        touch_backend raises_def advance_def)
  have ib: "fst (inject_user_context no_dict_str empty_session ''u1'' 5 6 ?b)"
    by (simp add: backend_service_def init_service_def create_backend inject_backend_result
        raises_def advance_def)
  note b = inject_changes_last_active_only [of no_dict_str empty_session "''u1''" 5 6 ?b]
  from b have "\<not> (fst (inject_user_context no_dict_str empty_session ''u1'' 5 6 ?b)
           \<and> fst (update_last_active ''u1'' 5 (snd (get_user_profile ''u1'' ?b)))) \<longrightarrow>
        persisted (snd (snd (inject_user_context no_dict_str empty_session ''u1'' 5 6 ?b)))
          = persisted ?b
        \<and> memory_store (snd (snd (inject_user_context no_dict_str empty_session ''u1'' 5 6 ?b)))
          = memory_store ?b"
    by (elim conjE)
  with nb have "persisted (snd (snd (inject_user_context no_dict_str empty_session ''u1'' 5 6 ?b)))
      = persisted ?b"
    by simp
  with pb have third: "persisted
      (snd (snd (inject_user_context no_dict_str empty_session ''u1'' 5 6 ?b)))
      = [(''u1'', ?np)]"
    by simp
  from first ib third show ?thesis
    by (intro conjI)
qed

text \<open>C7 as stated fails: the injection writes \<^verbatim>\<open>last_active\<close> of the stored record,
  which was unset.\<close>

theorem inject_mutates_last_active_counterexample:
  "stored_profile (step (Create ''u1'' 1 request_wheelchair) memory_service) ''u1''
     = Some (new_profile ''u1'' 1 request_wheelchair)
   \<and> last_active (new_profile ''u1'' 1 request_wheelchair) = None
   \<and> stored_profile
       (snd (snd (inject_user_context no_dict_str empty_session ''u1'' 5 6
          (step (Create ''u1'' 1 request_wheelchair) memory_service)))) ''u1''
     = Some ((new_profile ''u1'' 1 request_wheelchair)\<lparr>last_active := Some 5\<rparr>)"
  by (simp add: memory_service_def init_service_def create_memory inject_memory
      stored_profile_def persisted_def new_profile_def)

lemma second_lookup:
  assumes "fst (get_user_profile uid svc) = Some p"
  shows "(fst (get_user_profile uid
            (snd (snd (inject_user_context f session uid now_active now_ctx svc)))) = None
          \<or> fst (get_user_profile uid
            (snd (snd (inject_user_context f session uid now_active now_ctx svc)))) = Some p
          \<or> fst (get_user_profile uid
            (snd (snd (inject_user_context f session uid now_active now_ctx svc))))
              = Some (p\<lparr>last_active := Some now_active\<rparr>))
     \<and> (no_outage svc \<longrightarrow>
          fst (get_user_profile uid
            (snd (snd (inject_user_context f session uid now_active now_ctx svc)))) \<noteq> None)"
proof (cases "db svc")
  case None
  with assms have "map_of (memory_store svc) uid = Some p"
    by (simp add: get_memory)
  with None show ?thesis
    by (simp add: inject_memory get_memory map_of_map_entry)
next
  case (Some fs)
  with assms have g: "\<not> raises fs" "map_of (docs fs) uid = Some p"
    by (simp_all add: get_backend split: if_splits)
  have r: "snd (snd (inject_user_context f session uid now_active now_ctx svc)) =
      svc\<lparr>db := Some ((advance (advance fs))
                \<lparr>docs := if raises (advance fs) then docs fs
                         else AList.map_entry uid (\<lambda>p. p\<lparr>last_active := Some now_active\<rparr>)
                                (docs fs)\<rparr>)\<rparr>"
    using g by (simp add: inject_backend_service [OF Some])
  have clean: "\<not> raises (advance fs) \<and> \<not> raises (advance (advance fs))" if "no_outage svc"
    using no_outage_calls [OF that Some] by simp
  from g clean show ?thesis
    unfolding r by (auto simp: get_backend map_of_map_entry)
qed

text \<open>
  C10. Let \<open>uid\<close> resolve to the stored profile \<open>p\<close>. The first injection succeeds and
  writes the user id, the flag and the personalized context of \<open>p\<close>. Whenever \<open>uid\<close>
  resolves again at the second call (which it does without a backend outage), the
  second injection succeeds too and leaves the session keys \<^verbatim>\<open>personalized_context\<close>,
  \<^verbatim>\<open>user_id\<close> and \<^verbatim>\<open>context_injected\<close> at the values the first call gave them.
\<close>

theorem inject_idempotent:
  assumes "fst (get_user_profile uid svc) = Some p"
  shows "fst (fst (inject_twice f session uid a1 c1 a2 c2 svc))
     \<and> state (fst (snd (fst (inject_twice f session uid a1 c1 a2 c2 svc)))) ''personalized_context''
         = Some (VContext (create_personalized_context f p))
     \<and> state (fst (snd (fst (inject_twice f session uid a1 c1 a2 c2 svc)))) ''user_id''
         = Some (VStr uid)
     \<and> state (fst (snd (fst (inject_twice f session uid a1 c1 a2 c2 svc)))) ''context_injected''
         = Some (VBool True)
     \<and> (no_outage svc \<longrightarrow>
          fst (get_user_profile uid (snd (snd (fst (inject_twice f session uid a1 c1 a2 c2 svc)))))
            \<noteq> None)
     \<and> (fst (get_user_profile uid (snd (snd (fst (inject_twice f session uid a1 c1 a2 c2 svc)))))
            \<noteq> None \<longrightarrow>
          fst (snd (inject_twice f session uid a1 c1 a2 c2 svc))
          \<and> state (fst (snd (snd (inject_twice f session uid a1 c1 a2 c2 svc))))
                ''personalized_context''
              = state (fst (snd (fst (inject_twice f session uid a1 c1 a2 c2 svc))))
                  ''personalized_context''
          \<and> state (fst (snd (snd (inject_twice f session uid a1 c1 a2 c2 svc)))) ''user_id''
              = state (fst (snd (fst (inject_twice f session uid a1 c1 a2 c2 svc)))) ''user_id''
          \<and> state (fst (snd (snd (inject_twice f session uid a1 c1 a2 c2 svc))))
                ''context_injected''
              = state (fst (snd (fst (inject_twice f session uid a1 c1 a2 c2 svc))))
                  ''context_injected'')"
proof -
  let ?first = "inject_user_context f session uid a1 c1 svc"
  let ?second = "inject_user_context f (fst (snd ?first)) uid a2 c2 (snd (snd ?first))"
  have tw: "inject_twice f session uid a1 c1 a2 c2 svc = (?first, ?second)"
    by (simp add: inject_twice_def Let_def)
  note one = inject_present [OF assms, of f session a1 c1]
  have first: "fst ?first
      \<and> state (fst (snd ?first)) ''personalized_context''
          = Some (VContext (create_personalized_context f p))
      \<and> state (fst (snd ?first)) ''user_id'' = Some (VStr uid)
      \<and> state (fst (snd ?first)) ''context_injected'' = Some (VBool True)"
    by (simp add: one)
  note look = second_lookup [OF assms, of f session a1 c1]
  have again: "fst ?second
      \<and> state (fst (snd ?second)) ''personalized_context''
          = state (fst (snd ?first)) ''personalized_context''
      \<and> state (fst (snd ?second)) ''user_id'' = state (fst (snd ?first)) ''user_id''
      \<and> state (fst (snd ?second)) ''context_injected''
          = state (fst (snd ?first)) ''context_injected''"
    if res: "fst (get_user_profile uid (snd (snd ?first))) \<noteq> None"
  proof -
    from look res obtain q where
      q: "fst (get_user_profile uid (snd (snd ?first))) = Some q" and
      pq: "q = p \<or> q = p\<lparr>last_active := Some a1\<rparr>"
      by blast
    from pq have same: "create_personalized_context f q = create_personalized_context f p"
      by (auto simp: context_ignores_last_active)
    show ?thesis
      using first by (simp add: inject_present [OF q] same)
  qed
  from look have clean: "no_outage svc \<longrightarrow>
      fst (get_user_profile uid (snd (snd ?first))) \<noteq> None"
    by (elim conjE)
  from first clean again show ?thesis
    unfolding tw by simp
qed

text \<open>Injecting a stored profile twice into a fresh session.\<close>

theorem inject_idempotent_witness:
  "fst (get_user_profile ''u1'' (step (Create ''u1'' 1 request_wheelchair) memory_service))
     = Some (new_profile ''u1'' 1 request_wheelchair)
   \<and> fst (fst (inject_twice no_dict_str empty_session ''u1'' 5 6 7 8
        (step (Create ''u1'' 1 request_wheelchair) memory_service)))
   \<and> fst (snd (inject_twice no_dict_str empty_session ''u1'' 5 6 7 8
        (step (Create ''u1'' 1 request_wheelchair) memory_service)))
   \<and> state (fst (snd (snd (inject_twice no_dict_str empty_session ''u1'' 5 6 7 8
        (step (Create ''u1'' 1 request_wheelchair) memory_service))))) ''personalized_context''
     = Some (VContext (create_personalized_context no_dict_str
               (new_profile ''u1'' 1 request_wheelchair)))
   \<and> state (fst (snd (snd (inject_twice no_dict_str empty_session ''u1'' 5 6 7 8
        (step (Create ''u1'' 1 request_wheelchair) memory_service))))) ''user_id''
     = Some (VStr ''u1'')
   \<and> state (fst (snd (snd (inject_twice no_dict_str empty_session ''u1'' 5 6 7 8
        (step (Create ''u1'' 1 request_wheelchair) memory_service))))) ''context_injected''
     = Some (VBool True)"
proof -
  let ?svc = "step (Create ''u1'' 1 request_wheelchair) memory_service"
  let ?t = "inject_twice no_dict_str empty_session ''u1'' 5 6 7 8 ?svc"
  have g: "fst (get_user_profile ''u1'' ?svc) = Some (new_profile ''u1'' 1 request_wheelchair)"
    by (simp add: memory_service_def init_service_def create_memory get_memory)
  have o: "no_outage ?svc"
    by (simp add: memory_service_def init_service_def create_memory no_outage_def)
  note twice = inject_idempotent [OF g, of no_dict_str empty_session 5 6 7 8]
  from twice have "no_outage ?svc \<longrightarrow>
      fst (get_user_profile ''u1'' (snd (snd (fst ?t)))) \<noteq> None"
    by (elim conjE)
  with o have res: "fst (get_user_profile ''u1'' (snd (snd (fst ?t)))) \<noteq> None"
    by (rule rev_mp)
  from twice have "fst (get_user_profile ''u1'' (snd (snd (fst ?t)))) \<noteq> None \<longrightarrow>
          fst (snd ?t)
          \<and> state (fst (snd (snd ?t))) ''personalized_context''
              = state (fst (snd (fst ?t))) ''personalized_context''
          \<and> state (fst (snd (snd ?t))) ''user_id'' = state (fst (snd (fst ?t))) ''user_id''
          \<and> state (fst (snd (snd ?t))) ''context_injected''
              = state (fst (snd (fst ?t))) ''context_injected''"
    by (elim conjE)
  with res have second: "fst (snd ?t)
          \<and> state (fst (snd (snd ?t))) ''personalized_context''
              = state (fst (snd (fst ?t))) ''personalized_context''
          \<and> state (fst (snd (snd ?t))) ''user_id'' = state (fst (snd (fst ?t))) ''user_id''
          \<and> state (fst (snd (snd ?t))) ''context_injected''
              = state (fst (snd (fst ?t))) ''context_injected''"
    by (rule rev_mp)
  from twice have first: "fst (fst ?t)"
    by (elim conjE)
  from twice have pc: "state (fst (snd (fst ?t))) ''personalized_context''
         = Some (VContext (create_personalized_context no_dict_str
               (new_profile ''u1'' 1 request_wheelchair)))"
    by (elim conjE)
  from twice have u: "state (fst (snd (fst ?t))) ''user_id'' = Some (VStr ''u1'')"
    by (elim conjE)
  from twice have ci: "state (fst (snd (fst ?t))) ''context_injected'' = Some (VBool True)"
    by (elim conjE)
  from second pc
  have pc2: "state (fst (snd (snd ?t))) ''personalized_context''
         = Some (VContext (create_personalized_context no_dict_str
               (new_profile ''u1'' 1 request_wheelchair)))"
    by (elim conjE) (rule trans)
  from second u have u2: "state (fst (snd (snd ?t))) ''user_id'' = Some (VStr ''u1'')"
    by (elim conjE) (rule trans)
  from second ci
  have ci2: "state (fst (snd (snd ?t))) ''context_injected'' = Some (VBool True)"
    by (elim conjE) (rule trans)
  from second have ok2: "fst (snd ?t)"
    by (elim conjE)
  from g first ok2 pc2 u2 ci2 show ?thesis
    by (intro conjI)
qed

section \<open>Backend failures\<close>

text \<open>
  C4 (as amended). When the client constructor raises, the service starts on the dict.
  When the write of a creation raises, the service drops the client and stores the new
  profile in the dict. Once the service is on the dict it stays there through every
  further sequence of operations: there is no client left to call.
\<close>

theorem fallback_is_permanent:
  "use_memory_store (init_service None)
   \<and> (db svc = Some fs \<and> raises fs \<longrightarrow>
        use_memory_store (snd (create_user_profile uid now request svc))
        \<and> map_of (memory_store (snd (create_user_profile uid now request svc))) uid
            = Some (new_profile uid now request))
   \<and> (use_memory_store svc \<longrightarrow> use_memory_store (run ops svc))"
  by (simp add: use_memory_store_def init_service_def create_backend run_stays_in_memory
      update_conv')

text \<open>A backend that is down at the first write: the creation falls back, and the
  operations after it run on the dict.\<close>

theorem fallback_is_permanent_witness:
  "use_memory_store (step (Create ''u1'' 1 request_paris) (backend_service [True]))
   \<and> use_memory_store
       (run [Get ''u1'', Touch ''u1'' 2, Create ''u2'' 3 request_paris, ListProfiles 10 0]
          (step (Create ''u1'' 1 request_paris) (backend_service [True])))"
proof -
  let ?fs = "\<lparr>docs = [], faults = [True]\<rparr>"
  let ?svc = "step (Create ''u1'' 1 request_paris) (backend_service [True])"
  have d: "db (backend_service [True]) = Some ?fs \<and> raises ?fs"
    by (simp add: backend_service_def init_service_def raises_def)
  note perm = fallback_is_permanent [of "backend_service [True]" ?fs "''u1''" 1 request_paris "[]"]
  from perm have "db (backend_service [True]) = Some ?fs \<and> raises ?fs \<longrightarrow>
      use_memory_store (snd (create_user_profile ''u1'' 1 request_paris (backend_service [True])))
      \<and> map_of (memory_store
            (snd (create_user_profile ''u1'' 1 request_paris (backend_service [True])))) ''u1''
          = Some (new_profile ''u1'' 1 request_paris)"
    by (elim conjE)
  with d have m: "use_memory_store ?svc"
    by simp
  from fallback_is_permanent [of ?svc ?fs "''u1''" 1 request_paris
      "[Get ''u1'', Touch ''u1'' 2, Create ''u2'' 3 request_paris, ListProfiles 10 0]"]
  have "use_memory_store ?svc \<longrightarrow> use_memory_store
       (run [Get ''u1'', Touch ''u1'' 2, Create ''u2'' 3 request_paris, ListProfiles 10 0] ?svc)"
    by (elim conjE)
  with m show ?thesis
    by simp
qed

text \<open>C4 as stated fails for a read: a lookup on which the backend raises returns nothing
  and keeps the client, and the creation after it writes to the database, not to the
  dict.\<close>

theorem read_failure_keeps_backend_counterexample:
  "fst (get_user_profile ''u1'' (backend_service [True])) = None
   \<and> \<not> use_memory_store (snd (get_user_profile ''u1'' (backend_service [True])))
   \<and> db (snd (create_user_profile ''u2'' 1 request_paris
               (snd (get_user_profile ''u1'' (backend_service [True])))))
       = Some \<lparr>docs = [(''u2'', new_profile ''u2'' 1 request_paris)], faults = []\<rparr>
   \<and> memory_store (snd (create_user_profile ''u2'' 1 request_paris
               (snd (get_user_profile ''u1'' (backend_service [True]))))) = []"
  by (simp add: backend_service_def init_service_def get_backend create_backend raises_def
      advance_def use_memory_store_def)

text \<open>
  C5 (as amended). No operation lets an exception of the backend escape. A creation
  never raises: when the write raises it falls back to the dict and still returns the
  created profile. When a call of the backend raises, lookup and update return nothing,
  deletion and the refresh of \<^verbatim>\<open>last_active\<close> return false, and listing returns the
  empty list. An injection returns false and leaves the session alone when its lookup
  raises; when only its refresh of \<^verbatim>\<open>last_active\<close> raises it still succeeds.
\<close>

theorem storage_exceptions_contained:
  assumes "db svc = Some fs"
  shows "fst (create_user_profile uid now request svc) = Inr (new_profile uid now request)
     \<and> (raises fs \<longrightarrow> fst (get_user_profile uid svc) = None)
     \<and> (raises fs \<or> raises (advance fs) \<or> raises (advance (advance fs)) \<longrightarrow>
          fst (update_user_profile uid now upd svc) = None)
     \<and> (raises fs \<or> raises (advance fs) \<longrightarrow> \<not> fst (delete_user_profile uid svc))
     \<and> (raises fs \<longrightarrow> fst (list_user_profiles limit offset svc) = [])
     \<and> (raises fs \<longrightarrow> \<not> fst (update_last_active uid now svc))
     \<and> (raises fs \<longrightarrow>
          \<not> fst (inject_user_context f session uid now now_ctx svc)
          \<and> fst (snd (inject_user_context f session uid now now_ctx svc)) = session)
     \<and> (\<not> raises fs \<and> map_of (docs fs) uid \<noteq> None \<and> raises (advance fs) \<longrightarrow>
          fst (inject_user_context f session uid now now_ctx svc))"
proof -
  have "fst (inject_user_context f session uid now now_ctx svc)
        = (\<not> raises fs \<and> map_of (docs fs) uid \<noteq> None)"
    by (rule inject_backend_result [OF assms])
  moreover have "raises fs \<longrightarrow>
      fst (snd (inject_user_context f session uid now now_ctx svc)) = session"
    using assms by (simp add: inject_absent get_backend)
  ultimately show ?thesis
    using assms
    by (simp add: create_backend get_backend update_backend delete_backend list_backend
        touch_backend split: option.splits)
qed

text \<open>A backend that is down at the next call.\<close>

theorem storage_exceptions_contained_witness:
  "db (backend_service [True]) = Some \<lparr>docs = [], faults = [True]\<rparr>
   \<and> raises \<lparr>docs = [], faults = [True]\<rparr>
   \<and> fst (create_user_profile ''u1'' 1 request_paris (backend_service [True]))
       = Inr (new_profile ''u1'' 1 request_paris)
   \<and> fst (get_user_profile ''u1'' (backend_service [True])) = None
   \<and> fst (update_user_profile ''u1'' 1 update_style (backend_service [True])) = None
   \<and> \<not> fst (delete_user_profile ''u1'' (backend_service [True]))
   \<and> fst (list_user_profiles 10 0 (backend_service [True])) = []
   \<and> \<not> fst (update_last_active ''u1'' 1 (backend_service [True]))
   \<and> \<not> fst (inject_user_context no_dict_str empty_session ''u1'' 1 2 (backend_service [True]))"
proof -
  have d: "db (backend_service [True]) = Some \<lparr>docs = [], faults = [True]\<rparr>"
    by (simp add: backend_service_def init_service_def)
  have r: "raises \<lparr>docs = [], faults = [True]\<rparr>"
    by (simp add: raises_def)
  from storage_exceptions_contained [OF d, of "''u1''" 1 request_paris update_style 10 0
      no_dict_str empty_session 2] d r
  show ?thesis
    by simp
qed

text \<open>C5 as stated fails for a creation: with the backend down at the write, the caller
  gets the created profile, not a negative result, and a lookup after it finds the
  profile. It also fails for an injection whose lookup goes through and whose refresh of
  \<^verbatim>\<open>last_active\<close> raises: the injection returns true.\<close>

theorem create_returns_profile_counterexample:
  "raises \<lparr>docs = [], faults = [True]\<rparr>
   \<and> fst (create_user_profile ''u1'' 1 request_paris (backend_service [True]))
       = Inr (new_profile ''u1'' 1 request_paris)
   \<and> fst (get_user_profile ''u1''
            (snd (create_user_profile ''u1'' 1 request_paris (backend_service [True]))))
       = Some (new_profile ''u1'' 1 request_paris)
   \<and> \<not> fst (update_last_active ''u1'' 2
              (snd (get_user_profile ''u1''
                 (snd (create_user_profile ''u1'' 1 request_paris
                         (backend_service [False, False, True]))))))
   \<and> fst (inject_user_context no_dict_str empty_session ''u1'' 2 3
            (snd (create_user_profile ''u1'' 1 request_paris
                    (backend_service [False, False, True]))))"
  by (simp add: backend_service_def init_service_def create_backend get_memory get_backend
      touch_backend raises_def inject_backend_result advance_def new_profile_def)

section \<open>Listing\<close>

text \<open>
  C8 (as amended). Start the service on an empty store and run any sequence of
  operations in which the creations draw pairwise different identifiers and no call of
  the backend raises (none can when the service runs on the dict from its
  construction). Let \<open>limit \<ge> 1\<close> and \<open>offset \<ge> 0\<close>, and let \<open>n\<close> profiles be created
  and not deleted. When the service runs on the dict, or the creations read a strictly
  increasing clock, the listing returns exactly the summaries of the stored profiles at
  positions \<open>offset + 1\<close> to \<open>min (offset + limit) n\<close> of the creation order, and the
  identifiers of the summaries are the identifiers at those positions. When the service
  runs on the database, or the creations read a strictly increasing clock, the
  summaries returned are in ascending creation time.
\<close>

theorem list_is_creation_window:
  assumes "persisted (init_service client) = []"
    and "no_outage (init_service client)"
    and "distinct (created_ids ops)"
    and "1 \<le> limit" and "0 \<le> offset"
  shows "(use_memory_store (init_service client) \<or> sorted_wrt (<) (created_times ops) \<longrightarrow>
          fst (list_user_profiles limit offset (run ops (init_service client)))
            = map (\<lambda>uid. create_profile_summary
                           (the (stored_profile (run ops (init_service client)) uid)))
                (page_window limit offset (creation_order ops))
          \<and> map s_user_id
                (fst (list_user_profiles limit offset (run ops (init_service client))))
            = page_window limit offset (creation_order ops))
     \<and> (\<not> use_memory_store (init_service client) \<or> sorted_wrt (<) (created_times ops) \<longrightarrow>
          sorted (map s_created_at
            (fst (list_user_profiles limit offset (run ops (init_service client))))))"
proof -
  let ?init = "init_service client"
  let ?svc = "run ops ?init"
  let ?al = "persisted ?svc"
  let ?page = "fst (list_user_profiles limit offset ?svc)"
  have "no_outage ?svc
     \<and> map fst ?al = live_ids ops (map fst (persisted ?init))
     \<and> distinct (map fst ?al)"
    by (rule run_keys) (use assms(1-3) in simp_all)
  then have n: "no_outage ?svc"
    and k: "map fst ?al = creation_order ops"
    and d: "distinct (map fst ?al)"
    by (auto simp: creation_order_def assms(1))
  have ids: "map user_id (map snd ?al) = creation_order ops"
  proof -
    have "list_all (\<lambda>e. user_id (snd e) = fst e) ?al"
      by (rule run_user_ids) (use assms(1,2) in simp_all)
    then have "map user_id (map snd ?al) = map fst ?al"
      by (rule keyed_user_ids)
    from this k show ?thesis
      by (rule trans)
  qed
  have mode: "(db ?svc = None) = use_memory_store ?init"
    using run_keeps_store [OF assms(2), of ops] by (simp add: use_memory_store_def)
  have s: "sorted (map created_at (map snd ?al))" if "sorted_wrt (<) (created_times ops)"
  proof -
    have "no_outage ?svc
       \<and> map fst ?al = live_ids ops (map fst (persisted ?init))
       \<and> distinct (map fst ?al)
       \<and> sorted_wrt (<) (map (\<lambda>e. created_at (snd e)) ?al)"
      by (rule run_order) (use assms(1-3) that in simp_all)
    then show ?thesis
      by (simp add: strict_sorted_imp_sorted comp_def)
  qed
  have on_dict: "?page = map create_profile_summary
      (take (nat limit) (drop (nat offset) (map snd ?al)))" if "db ?svc = None"
    using that assms(4,5) by (simp add: list_memory persisted_def py_slice_window)
  have on_database: "?page = map create_profile_summary
      (take (nat limit) (drop (nat offset) (sort_key created_at (map snd ?al))))"
    if "db ?svc = Some fs" for fs
  proof -
    from n that have "\<not> raises fs"
      by (simp add: no_outage_calls)
    with that assms(4,5) show ?thesis
      by (simp add: list_backend persisted_def)
  qed
  have window: "?page = map create_profile_summary
      (take (nat limit) (drop (nat offset) (map snd ?al)))"
    if c: "use_memory_store ?init \<or> sorted_wrt (<) (created_times ops)"
  proof (cases "db ?svc")
    case None
    then show ?thesis by (rule on_dict)
  next
    case (Some fs)
    with c mode have "sorted_wrt (<) (created_times ops)"
      by simp
    then have "sorted (map created_at (map snd ?al))"
      by (rule s)
    then have "sort_key created_at (map snd ?al) = map snd ?al"
      by (rule sort_key_id_if_sorted)
    with on_database [OF Some] show ?thesis by simp
  qed
  have first: "?page = map (\<lambda>uid. create_profile_summary (the (stored_profile ?svc uid)))
          (page_window limit offset (creation_order ops))
      \<and> map s_user_id ?page = page_window limit offset (creation_order ops)"
    if c: "use_memory_store ?init \<or> sorted_wrt (<) (created_times ops)"
  proof -
    have "map snd ?al = map (\<lambda>uid. the (stored_profile ?svc uid)) (creation_order ops)"
      using values_by_key [OF d] by (simp add: k stored_profile_def)
    then have "take (nat limit) (drop (nat offset) (map snd ?al))
        = map (\<lambda>uid. the (stored_profile ?svc uid))
            (page_window limit offset (creation_order ops))"
      by (simp add: page_window_take_drop take_map drop_map)
    with window [OF c]
    have a: "?page = map (\<lambda>uid. create_profile_summary (the (stored_profile ?svc uid)))
          (page_window limit offset (creation_order ops))"
      by (simp add: comp_def)
    have "map s_user_id ?page
        = take (nat limit) (drop (nat offset) (map user_id (map snd ?al)))"
      unfolding window [OF c]
      by (simp add: take_map drop_map comp_def create_profile_summary_def)
    then have b: "map s_user_id ?page = page_window limit offset (creation_order ops)"
      by (simp only: ids page_window_take_drop)
    from a b show ?thesis by (rule conjI)
  qed
  have second: "sorted (map s_created_at ?page)"
    if c: "\<not> use_memory_store ?init \<or> sorted_wrt (<) (created_times ops)"
  proof (cases "db ?svc")
    case None
    with c mode have t: "sorted_wrt (<) (created_times ops)"
      by simp
    have "map s_created_at ?page
        = take (nat limit) (drop (nat offset) (map created_at (map snd ?al)))"
      unfolding on_dict [OF None]
      by (simp add: take_map drop_map comp_def create_profile_summary_def)
    with s [OF t] show ?thesis
      by (simp add: sorted_wrt_take sorted_wrt_drop)
  next
    case (Some fs)
    have "map s_created_at ?page
        = take (nat limit) (drop (nat offset)
            (map created_at (sort_key created_at (map snd ?al))))"
      unfolding on_database [OF Some]
      by (simp add: take_map drop_map comp_def create_profile_summary_def)
    then show ?thesis
      by (simp add: sorted_wrt_take sorted_wrt_drop)
  qed
  from first second show ?thesis by blast
qed

text \<open>Five profiles created one after the other on the dict; the page of two after the
  first two holds the third and the fourth.\<close>

theorem list_is_creation_window_witness:
  "fst (list_user_profiles 2 2 (run five_creates memory_service))
     = [create_profile_summary (new_profile ''u3'' 3 request_paris),
        create_profile_summary (new_profile ''u4'' 4 request_wheelchair)]
   \<and> map s_user_id (fst (list_user_profiles 2 2 (run five_creates memory_service)))
     = [''u3'', ''u4'']"
proof -
  let ?svc = "run five_creates (init_service None)"
  have e: "persisted (init_service None) = []"
    by (simp add: init_service_def persisted_def)
  have o: "no_outage (init_service None)"
    by (simp add: init_service_def no_outage_def)
  have d: "distinct (created_ids five_creates)"
    by (simp add: five_creates_def)
  have m: "use_memory_store (init_service None) \<or> sorted_wrt (<) (created_times five_creates)"
    by (simp add: init_service_def use_memory_store_def)
  have w: "page_window 2 2 (creation_order five_creates) = [''u3'', ''u4'']"
    by (simp add: page_window_take_drop creation_order_def five_creates_def)
  have p: "persisted ?svc =
      [(''u1'', new_profile ''u1'' 1 request_paris),
       (''u2'', new_profile ''u2'' 2 request_wheelchair),
       (''u3'', new_profile ''u3'' 3 request_paris),
       (''u4'', new_profile ''u4'' 4 request_wheelchair),
       (''u5'', new_profile ''u5'' 5 request_paris)]"
    by (simp add: five_creates_def init_service_def create_memory persisted_def)
  have s: "stored_profile ?svc ''u3'' = Some (new_profile ''u3'' 3 request_paris)
      \<and> stored_profile ?svc ''u4'' = Some (new_profile ''u4'' 4 request_wheelchair)"
    unfolding stored_profile_def p by simp
  have l: "(1::int) \<le> 2" "(0::int) \<le> 2"
    by simp_all
  from list_is_creation_window [OF e o d l]
  have "use_memory_store (init_service None) \<or> sorted_wrt (<) (created_times five_creates) \<longrightarrow>
          fst (list_user_profiles 2 2 ?svc)
            = map (\<lambda>uid. create_profile_summary (the (stored_profile ?svc uid)))
                (page_window 2 2 (creation_order five_creates))
          \<and> map s_user_id (fst (list_user_profiles 2 2 ?svc))
            = page_window 2 2 (creation_order five_creates)"
    by (elim conjE)
  with m have "fst (list_user_profiles 2 2 ?svc)
            = map (\<lambda>uid. create_profile_summary (the (stored_profile ?svc uid)))
                (page_window 2 2 (creation_order five_creates))
          \<and> map s_user_id (fst (list_user_profiles 2 2 ?svc))
            = page_window 2 2 (creation_order five_creates)"
    by (rule rev_mp)
  with w s show ?thesis
    by (simp add: memory_service_def create_profile_summary_def new_profile_def)
qed

text \<open>
  C8 as stated fails in three ways. After a fallback at the second creation, two profiles
  are created and not deleted but the listing holds the second alone. On the dict, with
  clock reads 3 and then 1, the listing follows the creation order and is not in
  ascending creation time. And a listing at which the backend raises is empty although a
  profile is stored.
\<close>

theorem listing_not_creation_window_counterexample:
  "creation_order [Create ''u1'' 1 request_paris, Create ''u2'' 2 request_wheelchair]
     = [''u1'', ''u2'']
   \<and> fst (list_user_profiles 10 0
        (run [Create ''u1'' 1 request_paris, Create ''u2'' 2 request_wheelchair]
           (backend_service [False, True])))
     = [create_profile_summary (new_profile ''u2'' 2 request_wheelchair)]
   \<and> map s_created_at (fst (list_user_profiles 10 0
        (run [Create ''u1'' 3 request_paris, Create ''u2'' 1 request_wheelchair]
           memory_service)))
     = [3, 1]
   \<and> persisted (run [Create ''u1'' 1 request_paris] (backend_service [False, True]))
     = [(''u1'', new_profile ''u1'' 1 request_paris)]
   \<and> fst (list_user_profiles 10 0
        (run [Create ''u1'' 1 request_paris] (backend_service [False, True])))
     = []"
proof -
  have a: "creation_order [Create ''u1'' 1 request_paris, Create ''u2'' 2 request_wheelchair]
      = [''u1'', ''u2'']"
    by (simp add: creation_order_def)
  have b: "fst (list_user_profiles 10 0
        (run [Create ''u1'' 1 request_paris, Create ''u2'' 2 request_wheelchair]
           (backend_service [False, True])))
      = [create_profile_summary (new_profile ''u2'' 2 request_wheelchair)]"
    by (simp add: backend_service_def init_service_def create_backend list_memory
        raises_def advance_def py_slice_def slice_index_def)
  have c: "map s_created_at (fst (list_user_profiles 10 0
        (run [Create ''u1'' 3 request_paris, Create ''u2'' 1 request_wheelchair]
           memory_service)))
      = [3, 1]"
    by (simp add: memory_service_def init_service_def create_memory list_memory
        py_slice_def slice_index_def create_profile_summary_def new_profile_def)
  have d: "persisted (run [Create ''u1'' 1 request_paris] (backend_service [False, True]))
      = [(''u1'', new_profile ''u1'' 1 request_paris)]"
    by (simp add: backend_service_def init_service_def create_backend persisted_def
        raises_def)
  have e: "fst (list_user_profiles 10 0
        (run [Create ''u1'' 1 request_paris] (backend_service [False, True])))
      = []"
    by (simp add: backend_service_def init_service_def create_backend list_backend
        raises_def advance_def)
  from a b c d e show ?thesis
    by (intro conjI)
qed

section \<open>Summary counts\<close>

text \<open>
  C9 (as amended). The two counts of a summary are the numbers of entries of the
  concatenated lists, repeated entries counted as often as they occur: mobility, sensory
  and cognitive needs for the first, destinations, activities and accommodation
  preferences for the second. Each equals the number of distinct entries exactly when
  the concatenation has no repeated entry.
\<close>

theorem summary_counts_entries:
  "accessibility_needs_count (create_profile_summary p) =
     length (mobility_needs (accessibility_profile p))
     + length (sensory_needs (accessibility_profile p))
     + length (cognitive_needs (accessibility_profile p))
   \<and> travel_interests_count (create_profile_summary p) =
     length (preferred_destinations (travel_interests p))
     + length (activity_interests (travel_interests p))
     + length (accommodation_preferences (travel_interests p))
   \<and> (accessibility_needs_count (create_profile_summary p) =
        distinct_count (mobility_needs (accessibility_profile p)
          @ sensory_needs (accessibility_profile p)
          @ cognitive_needs (accessibility_profile p)))
      = distinct (mobility_needs (accessibility_profile p)
          @ sensory_needs (accessibility_profile p)
          @ cognitive_needs (accessibility_profile p))
   \<and> (travel_interests_count (create_profile_summary p) =
        distinct_count (preferred_destinations (travel_interests p)
          @ activity_interests (travel_interests p)
          @ accommodation_preferences (travel_interests p)))
      = distinct (preferred_destinations (travel_interests p)
          @ activity_interests (travel_interests p)
          @ accommodation_preferences (travel_interests p))"
  using count_eq_distinct_count [of "mobility_needs (accessibility_profile p)
          @ sensory_needs (accessibility_profile p)
          @ cognitive_needs (accessibility_profile p)"]
    count_eq_distinct_count [of "preferred_destinations (travel_interests p)
          @ activity_interests (travel_interests p)
          @ accommodation_preferences (travel_interests p)"]
  by (simp add: create_profile_summary_def)

text \<open>The counts of a profile that lists one need under two headings and one
  destination twice.\<close>

theorem summary_counts_entries_witness:
  "accessibility_needs_count (create_profile_summary (new_profile ''u1'' 0 request_repeated)) = 2
   \<and> travel_interests_count (create_profile_summary (new_profile ''u1'' 0 request_repeated)) = 2"
  using summary_counts_entries [of "new_profile ''u1'' 0 request_repeated"]
  by (simp add: example_defs)

text \<open>C9 as stated fails there: both counts are 2 while one distinct entry is listed.\<close>

theorem summary_counts_distinct_counterexample:
  "accessibility_needs_count (create_profile_summary (new_profile ''u1'' 0 request_repeated)) = 2
   \<and> distinct_count
        (mobility_needs (accessibility_profile (new_profile ''u1'' 0 request_repeated))
         @ sensory_needs (accessibility_profile (new_profile ''u1'' 0 request_repeated))
         @ cognitive_needs (accessibility_profile (new_profile ''u1'' 0 request_repeated))) = 1
   \<and> travel_interests_count (create_profile_summary (new_profile ''u1'' 0 request_repeated)) = 2
   \<and> distinct_count
        (preferred_destinations (travel_interests (new_profile ''u1'' 0 request_repeated))
         @ activity_interests (travel_interests (new_profile ''u1'' 0 request_repeated))
         @ accommodation_preferences (travel_interests (new_profile ''u1'' 0 request_repeated))) = 1"
  by (simp add: create_profile_summary_def distinct_count_def example_defs)

end
